theory Spec2Isabelle
  imports Main
begin

section \<open>Python values and the runtime functions the sources call\<close>

text \<open>
  The values that reach the two modules. A byte string is a \<^typ>\<open>string\<close> (one
  \<^typ>\<open>char\<close> per byte). A text (Python \<open>str\<close>) is carried as its UTF-8 bytes, so that
  \<open>encode\<close> keeps the bytes and \<open>decode\<close> checks them; a text with a lone surrogate
  (which has no UTF-8 form) is outside the model. A float is carried as the text
  \<open>repr\<close> gives for it: the sources only ever format floats.
\<close>

datatype pyval =
    PNone
  | PBool bool
  | PInt int
  | PFloat string
  | PStr string
  | PBytes string

datatype reply_error = WRONGTYPE | NOT_AN_INTEGER | OVERFLOW | INVALID_EXPIRE

datatype error =
    DataError
  | ResponseError reply_error
  | AttributeError
  | TypeError
  | ValueError
  | UnicodeDecodeError

subsection \<open>Decimal numbers\<close>

definition digit_char :: "nat \<Rightarrow> char" where
  "digit_char d = ''0123456789'' ! (d mod 10)"

definition is_digit :: "char \<Rightarrow> bool" where
  "is_digit c = (48 \<le> (of_char c :: nat) \<and> (of_char c :: nat) \<le> 57)"

definition digit_val :: "char \<Rightarrow> nat" where
  "digit_val c = of_char c - 48"

fun digits_of_nat :: "nat \<Rightarrow> string" where
  "digits_of_nat n =
     (if n < 10 then [digit_char n]
      else digits_of_nat (n div 10) @ [digit_char (n mod 10)])"

declare digits_of_nat.simps [simp del]

definition nat_of_digits :: "string \<Rightarrow> nat" where
  "nat_of_digits s = foldl (\<lambda>a c. 10 * a + digit_val c) 0 s"

text \<open>\<open>repr\<close> of a Python int, which is also how the store prints a 64-bit integer.\<close>

definition str_of_int :: "int \<Rightarrow> string" where
  "str_of_int i =
     (if i < 0 then CHR ''-'' # digits_of_nat (nat (- i)) else digits_of_nat (nat i))"

text \<open>
  Turning an int into text raises ValueError when the int has more than 4300 decimal
  digits, the sign not counted: the default limit of CPython 3.11 and later. The text
  of a shorter int is \<open>str_of_int\<close>.
\<close>

definition max_str_digits :: nat where
  "max_str_digits = 4300"

definition int_too_long :: "int \<Rightarrow> bool" where
  "int_too_long i = (max_str_digits < length (digits_of_nat (nat \<bar>i\<bar>)))"

definition repr_int :: "int \<Rightarrow> error + string" where
  "repr_int i = (if int_too_long i then Inl ValueError else Inr (str_of_int i))"

subsection \<open>\<open>repr\<close> and \<open>str\<close>\<close>

definition hex_char :: "nat \<Rightarrow> char" where
  "hex_char d = ''0123456789abcdef'' ! (d mod 16)"

definition hex_escape :: "char \<Rightarrow> string" where
  "hex_escape c =
     [CHR 0x5C, CHR ''x'', hex_char ((of_char c :: nat) div 16), hex_char (of_char c)]"

text \<open>
  The quote Python picks: the single quote, unless the text holds one and holds no
  double quote.
\<close>

definition repr_quote :: "string \<Rightarrow> char" where
  "repr_quote s =
     (if CHR 0x27 \<in> set s \<and> CHR 0x22 \<notin> set s then CHR 0x22 else CHR 0x27)"

definition escape_common :: "char \<Rightarrow> char \<Rightarrow> string option" where
  "escape_common q c =
     (if c = CHR 0x5C then Some [CHR 0x5C, CHR 0x5C]
      else if c = q then Some [CHR 0x5C, q]
      else if c = CHR 0x09 then Some [CHR 0x5C, CHR ''t'']
      else if c = CHR 0x0A then Some [CHR 0x5C, CHR ''n'']
      else if c = CHR 0x0D then Some [CHR 0x5C, CHR ''r'']
      else None)"

definition repr_bytes_char :: "char \<Rightarrow> char \<Rightarrow> string" where
  "repr_bytes_char q c =
     (case escape_common q c of
        Some e \<Rightarrow> e
      | None \<Rightarrow>
          if (of_char c :: nat) < 32 \<or> 127 \<le> (of_char c :: nat) then hex_escape c
          else [c])"

definition repr_bytes :: "string \<Rightarrow> string" where
  "repr_bytes b =
     (let q = repr_quote b in CHR ''b'' # q # concat (map (repr_bytes_char q) b) @ [q])"

text \<open>
  \<open>repr\<close> of a text works on its characters. A text is cut into characters at the lead
  bytes of its UTF-8 form, and a character outside ASCII is read back as its code point.
\<close>

definition utf8_len :: "char \<Rightarrow> nat" where
  "utf8_len c =
     (if (of_char c :: nat) < 192 then 1
      else if (of_char c :: nat) < 224 then 2
      else if (of_char c :: nat) < 240 then 3
      else 4)"

fun split_chars :: "nat \<Rightarrow> string \<Rightarrow> string list" where
  "split_chars fuel [] = []"
| "split_chars 0 (c # cs) = [c # cs]"
| "split_chars (Suc fuel) (c # cs) =
     (c # take (utf8_len c - 1) cs) # split_chars fuel (drop (utf8_len c - 1) cs)"

definition code_point :: "string \<Rightarrow> nat" where
  "code_point ch =
     (case map of_char ch of
        [a] \<Rightarrow> a
      | [a, b] \<Rightarrow> (a - 192) * 64 + (b - 128)
      | [a, b, c] \<Rightarrow> (a - 224) * 4096 + (b - 128) * 64 + (c - 128)
      | [a, b, c, d] \<Rightarrow> (a - 240) * 262144 + (b - 128) * 4096 + (c - 128) * 64 + (d - 128)
      | _ \<Rightarrow> 0)"

text \<open>
  Which characters outside ASCII are printable is a matter of the interpreter's Unicode
  database. The database is a parameter: \<open>ucd n\<close> holds when the code point \<open>n\<close> is
  printable. A character that is not printable is written as \<open>\xhh\<close>, \<open>\uhhhh\<close> or
  \<open>\Uhhhhhhhh\<close>, by the size of its code point.
\<close>

type_synonym unicode_db = "nat \<Rightarrow> bool"

definition hex_digits :: "nat \<Rightarrow> nat \<Rightarrow> string" where
  "hex_digits w n = map (\<lambda>k. hex_char (n div 16 ^ k)) (rev [0..<w])"

definition unicode_escape :: "nat \<Rightarrow> string" where
  "unicode_escape n =
     (if n < 256 then [CHR 0x5C, CHR ''x''] @ hex_digits 2 n
      else if n < 65536 then [CHR 0x5C, CHR ''u''] @ hex_digits 4 n
      else [CHR 0x5C, CHR ''U''] @ hex_digits 8 n)"

definition repr_ascii_char :: "char \<Rightarrow> char \<Rightarrow> string" where
  "repr_ascii_char q c =
     (case escape_common q c of
        Some e \<Rightarrow> e
      | None \<Rightarrow>
          if (of_char c :: nat) < 32 \<or> (of_char c :: nat) = 127 then hex_escape c
          else [c])"

definition repr_str_char :: "unicode_db \<Rightarrow> char \<Rightarrow> string \<Rightarrow> string" where
  "repr_str_char ucd q ch =
     (case ch of
        [c] \<Rightarrow> if (of_char c :: nat) < 128 then repr_ascii_char q c else ch
      | _ \<Rightarrow> if ucd (code_point ch) then ch else unicode_escape (code_point ch))"

definition repr_str :: "unicode_db \<Rightarrow> string \<Rightarrow> string" where
  "repr_str ucd s =
     (let q = repr_quote s
      in q # concat (map (repr_str_char ucd q) (split_chars (length s) s)) @ [q])"

text \<open>
  \<open>repr\<close> of a value, where it has one: \<open>repr\<close> of an int of more than 4300 digits raises
  instead (\<open>repr_raises\<close>).
\<close>

fun repr :: "unicode_db \<Rightarrow> pyval \<Rightarrow> string" where
  "repr ucd PNone = ''None''"
| "repr ucd (PBool b) = (if b then ''True'' else ''False'')"
| "repr ucd (PInt i) = str_of_int i"
| "repr ucd (PFloat f) = f"
| "repr ucd (PStr s) = repr_str ucd s"
| "repr ucd (PBytes b) = repr_bytes b"

fun repr_raises :: "pyval \<Rightarrow> bool" where
  "repr_raises (PInt i) = int_too_long i"
| "repr_raises v = False"

text \<open>
  \<open>str(args)\<close> of the tuple of positional arguments. \<open>str_tuple\<close> is the text of the
  tuple; \<open>str_args\<close> is the call, which raises when the \<open>repr\<close> of an element does.
\<close>

fun join_comma :: "string list \<Rightarrow> string" where
  "join_comma [] = []"
| "join_comma [x] = x"
| "join_comma (x # y # ys) = x @ '', '' @ join_comma (y # ys)"

definition str_tuple :: "unicode_db \<Rightarrow> pyval list \<Rightarrow> string" where
  "str_tuple ucd args =
     (case args of
        [] \<Rightarrow> ''()''
      | [x] \<Rightarrow> ''('' @ repr ucd x @ '',)''
      | _ \<Rightarrow> ''('' @ join_comma (map (repr ucd) args) @ '')'')"

definition str_args :: "unicode_db \<Rightarrow> pyval list \<Rightarrow> error + string" where
  "str_args ucd args =
     (if list_ex repr_raises args then Inl ValueError else Inr (str_tuple ucd args))"

subsection \<open>UTF-8\<close>

definition is_cont :: "nat \<Rightarrow> bool" where
  "is_cont b = (128 \<le> b \<and> b \<le> 191)"

text \<open>
  The first continuation byte is narrowed after four lead bytes: this is what rules
  out the overlong forms, the surrogates and everything above U+10FFFF.
\<close>

definition first_cont :: "nat \<Rightarrow> nat \<Rightarrow> bool" where
  "first_cont b c =
     ((if b = 224 then 160 else if b = 240 then 144 else 128) \<le> c
      \<and> c \<le> (if b = 237 then 159 else if b = 244 then 143 else 191))"

definition conts :: "nat \<Rightarrow> nat \<Rightarrow> nat list \<Rightarrow> bool" where
  "conts n b r = (n \<le> length r \<and> first_cont b (hd r) \<and> list_all is_cont (take n r))"

text \<open>
  The length of the well-formed UTF-8 sequence at the head of the bytes, or 0 when
  there is none.
\<close>

definition utf8_head :: "nat list \<Rightarrow> nat" where
  "utf8_head bs =
     (case bs of
        [] \<Rightarrow> 0
      | b # r \<Rightarrow>
          if b < 128 then 1
          else if 194 \<le> b \<and> b \<le> 223 then (if conts 1 b r then 2 else 0)
          else if 224 \<le> b \<and> b \<le> 239 then (if conts 2 b r then 3 else 0)
          else if 240 \<le> b \<and> b \<le> 244 then (if conts 3 b r then 4 else 0)
          else 0)"

fun utf8_ok :: "nat \<Rightarrow> nat list \<Rightarrow> bool" where
  "utf8_ok fuel [] = True"
| "utf8_ok 0 (b # bs) = False"
| "utf8_ok (Suc fuel) (b # bs) =
     (let n = utf8_head (b # bs) in n \<noteq> 0 \<and> utf8_ok fuel (drop n (b # bs)))"

definition utf8_valid :: "string \<Rightarrow> bool" where
  "utf8_valid s = utf8_ok (length s) (map of_char s)"

text \<open>\<open>b.decode('utf-8')\<close> and \<open>s.encode('utf-8')\<close>.\<close>

definition decode_utf8 :: "string \<Rightarrow> error + string" where
  "decode_utf8 b = (if utf8_valid b then Inr b else Inl UnicodeDecodeError)"

definition encode_utf8 :: "string \<Rightarrow> string" where
  "encode_utf8 s = s"

subsection \<open>\<open>int(x)\<close> on bytes\<close>

definition is_space :: "char \<Rightarrow> bool" where
  "is_space c = ((of_char c :: nat) = 32 \<or> (9 \<le> (of_char c :: nat) \<and> (of_char c :: nat) \<le> 13))"

definition strip :: "string \<Rightarrow> string" where
  "strip s = rev (dropWhile is_space (rev (dropWhile is_space s)))"

text \<open>
  Digits, with single underscores allowed between two digits: the body of a base-10
  literal. White space around the literal is dropped and one sign may lead it. The limit
  of 4300 digits, which \<open>int\<close> has as well, is not modelled for it.
\<close>

fun literal_body :: "string \<Rightarrow> bool" where
  "literal_body [] = False"
| "literal_body [c] = is_digit c"
| "literal_body (c # d # cs) =
     (if is_digit c then
        (if d = CHR ''_'' then literal_body cs else literal_body (d # cs))
      else False)"

definition int_of_literal :: "string \<Rightarrow> error + int" where
  "int_of_literal s =
     (let t = strip s;
          neg = (t \<noteq> [] \<and> hd t = CHR ''-'');
          body = (if t \<noteq> [] \<and> (hd t = CHR ''-'' \<or> hd t = CHR ''+'') then tl t else t)
      in if literal_body body then
           (let n = int (nat_of_digits (filter is_digit body)) in Inr (if neg then - n else n))
         else Inl ValueError)"

section \<open>The key-value store\<close>

text \<open>
  Modelled from the spec: the store and its client are an external collaborator, absent
  from the sources. The commands the sources call (SET, GET, INCR, EXISTS, RPUSH, LRANGE,
  SETEX, FLUSHDB) are given the store's standard semantics, which the spec's section on
  external interfaces names as what the components rely on.

  A key holds a byte string or a list of byte strings, and may carry the time at which
  it expires. Besides the keyspace and the clock the server keeps the write commands it
  has applied, in order (its append-only log).
\<close>

datatype rvalue = RString string | RList "string list"

record entry =
  content :: rvalue
  expire_at :: "nat option"

datatype command =
    FLUSHDB bool
  | SET string string
  | SETEX string nat string
  | INCR string
  | RPUSH string string

record redis =
  db :: "string \<Rightarrow> entry option"
  clock :: nat
  applied :: "command list"

text \<open>A key whose expiry time has come is absent for every command.\<close>

definition live :: "redis \<Rightarrow> string \<Rightarrow> entry option" where
  "live r k =
     (case db r k of
        None \<Rightarrow> None
      | Some e \<Rightarrow>
          (case expire_at e of
             None \<Rightarrow> Some e
           | Some t \<Rightarrow> if clock r < t then Some e else None))"

text \<open>Time passing between two calls.\<close>

definition elapse :: "nat \<Rightarrow> redis \<Rightarrow> redis" where
  "elapse d r = r\<lparr>clock := clock r + d\<rparr>"

text \<open>
  What the client sends for a value: bytes as they are, a text in UTF-8, a number as
  its \<open>repr\<close> (which raises for an int of more than 4300 digits); it refuses a bool
  (although a bool is an int) and anything else.
\<close>

fun encode :: "pyval \<Rightarrow> error + string" where
  "encode (PBytes b) = Inr b"
| "encode (PBool b) = Inl DataError"
| "encode (PInt i) = repr_int i"
| "encode (PFloat f) = Inr f"
| "encode (PStr s) = Inr (encode_utf8 s)"
| "encode PNone = Inl DataError"

text \<open>
  The store reads a byte string as a signed 64-bit integer only in its canonical
  form: no sign but a minus, no leading zero, no space.
\<close>

definition canonical_digits :: "string \<Rightarrow> bool" where
  "canonical_digits s = (s \<noteq> [] \<and> list_all is_digit s \<and> hd s \<noteq> CHR ''0'')"

definition string2ll :: "string \<Rightarrow> int option" where
  "string2ll s =
     (if s = ''0'' then Some 0
      else if s \<noteq> [] \<and> hd s = CHR ''-'' then
        (if canonical_digits (tl s) \<and> int (nat_of_digits (tl s)) \<le> 9223372036854775808
         then Some (- int (nat_of_digits (tl s))) else None)
      else if canonical_digits s \<and> int (nat_of_digits s) \<le> 9223372036854775807
        then Some (int (nat_of_digits s))
      else None)"

definition redis_set :: "string \<Rightarrow> pyval \<Rightarrow> redis \<Rightarrow> (error + bool) \<times> redis" where
  "redis_set k v r =
     (case encode v of
        Inl e \<Rightarrow> (Inl e, r)
      | Inr b \<Rightarrow>
          (Inr True,
           r\<lparr>db := (db r)(k \<mapsto> \<lparr>content = RString b, expire_at = None\<rparr>),
             applied := applied r @ [SET k b]\<rparr>))"

definition redis_setex :: "string \<Rightarrow> int \<Rightarrow> pyval \<Rightarrow> redis \<Rightarrow> (error + bool) \<times> redis" where
  "redis_setex k seconds v r =
     (case encode v of
        Inl e \<Rightarrow> (Inl e, r)
      | Inr b \<Rightarrow>
          if seconds \<le> 0 then (Inl (ResponseError INVALID_EXPIRE), r)
          else
            (Inr True,
             r\<lparr>db := (db r)(k \<mapsto> \<lparr>content = RString b,
                                     expire_at = Some (clock r + nat seconds)\<rparr>),
               applied := applied r @ [SETEX k (nat seconds) b]\<rparr>))"

definition redis_get :: "string \<Rightarrow> redis \<Rightarrow> error + string option" where
  "redis_get k r =
     (case live r k of
        None \<Rightarrow> Inr None
      | Some e \<Rightarrow>
          (case content e of
             RString b \<Rightarrow> Inr (Some b)
           | RList xs \<Rightarrow> Inl (ResponseError WRONGTYPE)))"

definition redis_exists :: "string \<Rightarrow> redis \<Rightarrow> nat" where
  "redis_exists k r = (case live r k of None \<Rightarrow> 0 | Some e \<Rightarrow> 1)"

text \<open>INCR starts an absent key at 0, and keeps the expiry of a key it finds.\<close>

definition redis_incr :: "string \<Rightarrow> redis \<Rightarrow> (error + int) \<times> redis" where
  "redis_incr k r =
     (case live r k of
        None \<Rightarrow>
          (Inr 1,
           r\<lparr>db := (db r)(k \<mapsto> \<lparr>content = RString (str_of_int 1), expire_at = None\<rparr>),
             applied := applied r @ [INCR k]\<rparr>)
      | Some e \<Rightarrow>
          (case content e of
             RList xs \<Rightarrow> (Inl (ResponseError WRONGTYPE), r)
           | RString b \<Rightarrow>
               (case string2ll b of
                  None \<Rightarrow> (Inl (ResponseError NOT_AN_INTEGER), r)
                | Some n \<Rightarrow>
                    if n = 9223372036854775807 then (Inl (ResponseError OVERFLOW), r)
                    else
                      (Inr (n + 1),
                       r\<lparr>db := (db r)(k \<mapsto> e\<lparr>content := RString (str_of_int (n + 1))\<rparr>),
                         applied := applied r @ [INCR k]\<rparr>))))"

definition redis_rpush :: "string \<Rightarrow> pyval \<Rightarrow> redis \<Rightarrow> (error + nat) \<times> redis" where
  "redis_rpush k v r =
     (case encode v of
        Inl e \<Rightarrow> (Inl e, r)
      | Inr b \<Rightarrow>
          (case live r k of
             None \<Rightarrow>
               (Inr 1,
                r\<lparr>db := (db r)(k \<mapsto> \<lparr>content = RList [b], expire_at = None\<rparr>),
                  applied := applied r @ [RPUSH k b]\<rparr>)
           | Some e \<Rightarrow>
               (case content e of
                  RString s \<Rightarrow> (Inl (ResponseError WRONGTYPE), r)
                | RList xs \<Rightarrow>
                    (Inr (length xs + 1),
                     r\<lparr>db := (db r)(k \<mapsto> e\<lparr>content := RList (xs @ [b])\<rparr>),
                       applied := applied r @ [RPUSH k b]\<rparr>))))"

text \<open>LRANGE with the store's indices: a negative index counts from the end.\<close>

definition lrange_of :: "string list \<Rightarrow> int \<Rightarrow> int \<Rightarrow> string list" where
  "lrange_of xs start stop =
     (let n = int (length xs);
          s = (if start < 0 then max 0 (n + start) else start);
          e = (if stop < 0 then n + stop else min stop (n - 1))
      in if e < s then [] else take (nat (e - s + 1)) (drop (nat s) xs))"

definition redis_lrange :: "string \<Rightarrow> int \<Rightarrow> int \<Rightarrow> redis \<Rightarrow> error + string list" where
  "redis_lrange k start stop r =
     (case live r k of
        None \<Rightarrow> Inr []
      | Some e \<Rightarrow>
          (case content e of
             RString s \<Rightarrow> Inl (ResponseError WRONGTYPE)
           | RList xs \<Rightarrow> Inr (lrange_of xs start stop)))"

text \<open>
  The client's \<open>flushdb(asynchronous=False)\<close>: with a true argument it sends FLUSHDB
  ASYNC. Either way the keyspace is empty when the command returns: the two modes differ
  in when the server frees the memory of the old keys, which no command of this model
  reads.
\<close>

definition redis_flushdb :: "bool \<Rightarrow> redis \<Rightarrow> bool \<times> redis" where
  "redis_flushdb asynchronous r =
     (True,
      r\<lparr>db := (\<lambda>k. None),
        applied := applied r @ [FLUSHDB asynchronous]\<rparr>)"

section \<open>exercise.py\<close>

text \<open>
  \<open>self._redis\<close> is a client of the store, or (in a test) some other object put in its
  place. The stand-in modelled here takes every call and never reaches the server: it
  answers \<open>set\<close> with True and \<open>get\<close> with None.
\<close>

datatype handle = RedisClient | Stub

record cache =
  redis_attr :: handle

definition isinstance_Redis :: "handle \<Rightarrow> bool" where
  "isinstance_Redis h = (h = RedisClient)"

text \<open>
  A method takes the instance and the positional arguments, and leaves the store in
  the state it reached, also when it raises. Keyword arguments are not modelled.
\<close>

type_synonym py_method = "cache \<Rightarrow> pyval list \<Rightarrow> redis \<Rightarrow> (error + pyval) \<times> redis"

text \<open>
  \<open>functools.wraps\<close> hands the method's \<open>__qualname__\<close> on to the wrapper, so both
  decorators of a method read the same name; it is a parameter here. \<open>call_history\<close>
  evaluates \<open>str(args)\<close> before it calls \<open>rpush\<close>, so it takes the Unicode database too.
\<close>

definition count_calls :: "string \<Rightarrow> py_method \<Rightarrow> py_method" where
  "count_calls qualname method self args r =
     (if isinstance_Redis (redis_attr self) then
        (case redis_incr qualname r of
           (Inl e, r1) \<Rightarrow> (Inl e, r1)
         | (Inr n, r1) \<Rightarrow> method self args r1)
      else method self args r)"

definition call_history :: "unicode_db \<Rightarrow> string \<Rightarrow> py_method \<Rightarrow> py_method" where
  "call_history ucd qualname method self args r =
     (let in_key = qualname @ '':inputs'';
          out_key = qualname @ '':outputs''
      in case (if isinstance_Redis (redis_attr self)
               then (case str_args ucd args of
                       Inl e \<Rightarrow> (Inl e, r)
                     | Inr logged \<Rightarrow> redis_rpush in_key (PStr logged) r)
               else (Inr 0, r)) of
           (Inl e, r1) \<Rightarrow> (Inl e, r1)
         | (Inr n, r1) \<Rightarrow>
             (case method self args r1 of
                (Inl e, r2) \<Rightarrow> (Inl e, r2)
              | (Inr output, r2) \<Rightarrow>
                  (case (if isinstance_Redis (redis_attr self)
                         then redis_rpush out_key output r2
                         else (Inr 0, r2)) of
                     (Inl e, r3) \<Rightarrow> (Inl e, r3)
                   | (Inr m, r3) \<Rightarrow> (Inr output, r3))))"

definition handle_set :: "handle \<Rightarrow> string \<Rightarrow> pyval \<Rightarrow> redis \<Rightarrow> (error + bool) \<times> redis" where
  "handle_set h k v r = (case h of RedisClient \<Rightarrow> redis_set k v r | Stub \<Rightarrow> (Inr True, r))"

definition handle_get :: "handle \<Rightarrow> string \<Rightarrow> redis \<Rightarrow> error + string option" where
  "handle_get h k r = (case h of RedisClient \<Rightarrow> redis_get k r | Stub \<Rightarrow> Inr None)"

text \<open>
  The text of a version-4 UUID, as \<open>str(uuid.uuid4())\<close> gives it: 36 characters, hex
  digits in five groups, the version digit 4 and a variant digit among 8, 9, a, b.
\<close>

definition uuid_slot :: "char \<Rightarrow> char \<Rightarrow> bool" where
  "uuid_slot t c =
     (if t = CHR ''x'' then c \<in> set ''0123456789abcdef''
      else if t = CHR ''y'' then c \<in> set ''89ab''
      else c = t)"

definition is_uuid4 :: "string \<Rightarrow> bool" where
  "is_uuid4 s = list_all2 uuid_slot ''xxxxxxxx-xxxx-4xxx-yxxx-xxxxxxxxxxxx'' s"

text \<open>
  \<open>Cache.__init__\<close>: a new client, then \<open>flushdb(True)\<close>. The argument is the client's
  \<open>asynchronous\<close> parameter.
\<close>

definition Cache_init :: "redis \<Rightarrow> cache \<times> redis" where
  "Cache_init r =
     (let self = \<lparr>redis_attr = RedisClient\<rparr>
      in (self, snd (redis_flushdb True r)))"

text \<open>
  The body of \<open>Cache.store\<close>. The random draw of \<open>uuid.uuid4()\<close> is the first parameter:
  \<open>uid\<close> is the text the call draws.
\<close>

definition store :: "string \<Rightarrow> py_method" where
  "store uid self args r =
     (case args of
        [data] \<Rightarrow>
          (let data_key = uid
           in case handle_set (redis_attr self) data_key data r of
                (Inl e, r1) \<Rightarrow> (Inl e, r1)
              | (Inr ok, r1) \<Rightarrow> (Inr (PStr data_key), r1))
      | _ \<Rightarrow> (Inl TypeError, r))"

text \<open>\<open>Cache.store\<close> as the class has it: \<open>@call_history\<close> over \<open>@count_calls\<close> over the body.\<close>

definition Cache_store :: "unicode_db \<Rightarrow> string \<Rightarrow> py_method" where
  "Cache_store ucd uid =
     call_history ucd ''Cache.store'' (count_calls ''Cache.store'' (store uid))"

definition reply_value :: "string option \<Rightarrow> pyval" where
  "reply_value data = (case data of None \<Rightarrow> PNone | Some b \<Rightarrow> PBytes b)"

definition Cache_get ::
  "cache \<Rightarrow> string \<Rightarrow> (string option \<Rightarrow> error + pyval) option \<Rightarrow> redis \<Rightarrow> error + pyval" where
  "Cache_get self key fn r =
     (case handle_get (redis_attr self) key r of
        Inl e \<Rightarrow> Inl e
      | Inr data \<Rightarrow> (case fn of Some f \<Rightarrow> f data | None \<Rightarrow> Inr (reply_value data)))"

text \<open>\<open>lambda x: x.decode('utf-8')\<close>: None has no \<open>decode\<close>.\<close>

definition decode_lambda :: "string option \<Rightarrow> error + pyval" where
  "decode_lambda x =
     (case x of
        None \<Rightarrow> Inl AttributeError
      | Some b \<Rightarrow> (case decode_utf8 b of Inl e \<Rightarrow> Inl e | Inr s \<Rightarrow> Inr (PStr s)))"

text \<open>\<open>lambda x: int(x)\<close>: \<open>int(None)\<close> is a TypeError.\<close>

definition int_lambda :: "string option \<Rightarrow> error + pyval" where
  "int_lambda x =
     (case x of
        None \<Rightarrow> Inl TypeError
      | Some b \<Rightarrow> (case int_of_literal b of Inl e \<Rightarrow> Inl e | Inr i \<Rightarrow> Inr (PInt i)))"

definition Cache_get_str :: "cache \<Rightarrow> string \<Rightarrow> redis \<Rightarrow> error + pyval" where
  "Cache_get_str self key r = Cache_get self key (Some decode_lambda) r"

definition Cache_get_int :: "cache \<Rightarrow> string \<Rightarrow> redis \<Rightarrow> error + pyval" where
  "Cache_get_int self key r = Cache_get self key (Some int_lambda) r"

text \<open>
  What \<open>replay\<close> can be given: None, a callable with no \<open>__self__\<close> (a plain function),
  or a method bound to an object, which may or may not have a \<open>_redis\<close> attribute.
\<close>

datatype callable =
    NoCallable
  | Function string
  | BoundMethod "handle option" string

text \<open>
  The loop of \<open>replay\<close>: the lines printed, and the error that ended the loop if one
  did. An output is a byte string, which \<open>format\<close> prints as its \<open>repr\<close>.
\<close>

fun replay_lines :: "string \<Rightarrow> (string \<times> string) list \<Rightarrow> string list \<times> error option" where
  "replay_lines fxn_name [] = ([], None)"
| "replay_lines fxn_name ((fxn_input, fxn_output) # rest) =
     (case decode_utf8 fxn_input of
        Inl e \<Rightarrow> ([], Some e)
      | Inr t \<Rightarrow>
          (let line = fxn_name @ ''(*'' @ t @ '') -> '' @ repr_bytes fxn_output;
               (ls, e) = replay_lines fxn_name rest
           in (line # ls, e)))"

text \<open>
  The count \<open>replay\<close> is about to print: 0 unless the key exists, else \<open>int\<close> of what
  GET answers.
\<close>

definition call_counter :: "string \<Rightarrow> redis \<Rightarrow> error + int" where
  "call_counter fxn_name r =
     (if redis_exists fxn_name r \<noteq> 0 then
        (case redis_get fxn_name r of
           Inl e \<Rightarrow> Inl e
         | Inr None \<Rightarrow> Inl TypeError
         | Inr (Some b) \<Rightarrow> int_of_literal b)
      else Inr 0)"

definition replay :: "callable \<Rightarrow> redis \<Rightarrow> string list \<times> error option" where
  "replay fn r =
     (case fn of
        NoCallable \<Rightarrow> ([], None)
      | Function name \<Rightarrow> ([], None)
      | BoundMethod attr fxn_name \<Rightarrow>
          (case attr of
             None \<Rightarrow> ([], None)
           | Some redis_store \<Rightarrow>
               if \<not> isinstance_Redis redis_store then ([], None)
               else
                 (let in_key = fxn_name @ '':inputs'';
                      out_key = fxn_name @ '':outputs''
                  in case call_counter fxn_name r of
                       Inl e \<Rightarrow> ([], Some e)
                     | Inr fxn_call_count \<Rightarrow>
                         (let head = fxn_name @ '' was called '' @ str_of_int fxn_call_count
                                       @ '' times:''
                          in case redis_lrange in_key 0 (- 1) r of
                               Inl e \<Rightarrow> ([head], Some e)
                             | Inr fxn_inputs \<Rightarrow>
                                 (case redis_lrange out_key 0 (- 1) r of
                                    Inl e \<Rightarrow> ([head], Some e)
                                  | Inr fxn_outputs \<Rightarrow>
                                      (let (ls, e) = replay_lines fxn_name (zip fxn_inputs fxn_outputs)
                                       in (head # ls, e)))))))"

section \<open>web.py\<close>

text \<open>
  Modelled from the spec: the HTTP client is an external collaborator. A request
  either fails with a \<open>RequestException\<close> (carried as its message) or brings a response;
  \<open>raise_for_status\<close> raises for the statuses 400 to 599, with the client's message.
\<close>

record response =
  status_code :: nat
  reason :: string
  resp_url :: string
  resp_text :: string

datatype http_result = Failed string | Responded response

definition raise_for_status :: "response \<Rightarrow> string option" where
  "raise_for_status resp =
     (if 400 \<le> status_code resp \<and> status_code resp < 500 then
        Some (str_of_int (int (status_code resp)) @ '' Client Error: '' @ reason resp
              @ '' for url: '' @ resp_url resp)
      else if 500 \<le> status_code resp \<and> status_code resp < 600 then
        Some (str_of_int (int (status_code resp)) @ '' Server Error: '' @ reason resp
              @ '' for url: '' @ resp_url resp)
      else None)"

text \<open>
  The world of \<open>web.py\<close>: the server behind the module's \<open>redis_store\<close>, and the urls
  requested over HTTP so far. What the network answers is a parameter: \<open>net n url\<close> is
  the answer to a request for \<open>url\<close> made after \<open>n\<close> earlier requests.
\<close>

record world =
  redis_store :: redis
  requested :: "string list"

type_synonym internet = "nat \<Rightarrow> string \<Rightarrow> http_result"

type_synonym fetcher = "string \<Rightarrow> world \<Rightarrow> (error + string) \<times> world"

text \<open>The body of \<open>get_page\<close>, under the decorator.\<close>

definition get_page_body :: "internet \<Rightarrow> fetcher" where
  "get_page_body net url w =
     (let w1 = w\<lparr>requested := requested w @ [url]\<rparr>
      in case net (length (requested w)) url of
           Failed e \<Rightarrow> (Inr (''Error fetching the URL: '' @ e), w1)
         | Responded resp \<Rightarrow>
             (case raise_for_status resp of
                Some e \<Rightarrow> (Inr (''Error fetching the URL: '' @ e), w1)
              | None \<Rightarrow> (Inr (resp_text resp), w1)))"

text \<open>\<open>if result:\<close> on what GET answers: None and the empty byte string are false.\<close>

definition truthy :: "string option \<Rightarrow> bool" where
  "truthy result = (case result of None \<Rightarrow> False | Some b \<Rightarrow> b \<noteq> [])"

definition data_cacher :: "fetcher \<Rightarrow> fetcher" where
  "data_cacher method url w =
     (case redis_incr (''count:'' @ url) (redis_store w) of
        (Inl e, s1) \<Rightarrow> (Inl e, w\<lparr>redis_store := s1\<rparr>)
      | (Inr n, s1) \<Rightarrow>
          (let w1 = w\<lparr>redis_store := s1\<rparr>
           in case redis_get (''result:'' @ url) s1 of
                Inl e \<Rightarrow> (Inl e, w1)
              | Inr result \<Rightarrow>
                  (case (if truthy result then result else None) of
                     Some cached \<Rightarrow> (decode_utf8 cached, w1)
                   | None \<Rightarrow>
                       (case method url w1 of
                          (Inl e, w2) \<Rightarrow> (Inl e, w2)
                        | (Inr result, w2) \<Rightarrow>
                            (case redis_setex (''result:'' @ url) 10 (PStr result)
                                    (redis_store w2) of
                               (Inl e, s3) \<Rightarrow> (Inl e, w2\<lparr>redis_store := s3\<rparr>)
                             | (Inr ok, s3) \<Rightarrow> (Inr result, w2\<lparr>redis_store := s3\<rparr>))))))"

definition get_page :: "internet \<Rightarrow> fetcher" where
  "get_page net = data_cacher (get_page_body net)"

text \<open>Time passing between two calls of \<open>get_page\<close>.\<close>

definition wait :: "nat \<Rightarrow> world \<Rightarrow> world" where
  "wait d w = w\<lparr>redis_store := elapse d (redis_store w)\<rparr>"

section \<open>Observations and runs\<close>

text \<open>What a key holds for a client, if it holds anything.\<close>

definition value_at :: "redis \<Rightarrow> string \<Rightarrow> rvalue option" where
  "value_at r k = map_option content (live r k)"

text \<open>
  The three keys of an instrumented operation as the two decorators leave them: the
  counter after \<open>n\<close> increments, and the two histories. A key is absent until its first
  write.
\<close>

definition tracked :: "string \<Rightarrow> nat \<Rightarrow> string list \<Rightarrow> string list \<Rightarrow> redis \<Rightarrow> bool" where
  "tracked name n ins outs r =
     (value_at r name = (if n = 0 then None else Some (RString (str_of_int (int n))))
      \<and> value_at r (name @ '':inputs'') = (if ins = [] then None else Some (RList ins))
      \<and> value_at r (name @ '':outputs'') = (if outs = [] then None else Some (RList outs)))"

text \<open>
  The arguments \<open>str(args)\<close> can format, and the arguments with which the body of
  \<open>Cache.store\<close> returns: one value the client can send.
\<close>

definition formats :: "pyval list \<Rightarrow> bool" where
  "formats args = (\<not> list_ex repr_raises args)"

definition returns :: "pyval list \<Rightarrow> bool" where
  "returns args =
     (case args of
        [data] \<Rightarrow> (case encode data of Inl e \<Rightarrow> False | Inr b \<Rightarrow> True)
      | _ \<Rightarrow> False)"

text \<open>
  A run of calls of \<open>Cache.store\<close> on one instance, each with its draw and its
  arguments; a call that raises is followed by the next one.
\<close>

fun store_calls ::
  "unicode_db \<Rightarrow> cache \<Rightarrow> (string \<times> pyval list) list \<Rightarrow> redis
     \<Rightarrow> (error + pyval) list \<times> redis" where
  "store_calls ucd self [] r = ([], r)"
| "store_calls ucd self ((uid, args) # rest) r =
     (let (res, r1) = Cache_store ucd uid self args r;
          (ress, r2) = store_calls ucd self rest r1
      in (res # ress, r2))"

text \<open>The line \<open>replay\<close> prints for one pair of a decoded input and an output.\<close>

definition replay_line :: "string \<Rightarrow> string \<times> string \<Rightarrow> string" where
  "replay_line fxn_name p = fxn_name @ ''(*'' @ fst p @ '') -> '' @ repr_bytes (snd p)"

text \<open>
  The access counter of a url as \<open>get_page\<close> leaves it: absent before the first access,
  then the decimal count, with no expiry.
\<close>

definition counts :: "redis \<Rightarrow> string \<Rightarrow> nat \<Rightarrow> bool" where
  "counts r k n =
     (db r k = (if n = 0 then None
                else Some \<lparr>content = RString (str_of_int (int n)), expire_at = None\<rparr>))"

text \<open>The cache key of a url holds nothing a client can read, or the empty byte string.\<close>

definition cache_empty_or_absent :: "redis \<Rightarrow> string \<Rightarrow> bool" where
  "cache_empty_or_absent r k =
     (case live r k of None \<Rightarrow> True | Some e \<Rightarrow> content e = RString [])"

section \<open>Example states\<close>

text \<open>An empty store, and a store that still holds a value from an earlier instance.\<close>

definition empty_store :: redis where
  "empty_store = \<lparr>db = (\<lambda>k. None), clock = 0, applied = []\<rparr>"

definition stale_store :: redis where
  "stale_store =
     \<lparr>db = (\<lambda>k. None)(''0b1f6a5e-58a1-4c0e-9d3b-2f1f5a7c9e10'' \<mapsto>
              \<lparr>content = RString ''left over'', expire_at = None\<rparr>),
      clock = 0, applied = []\<rparr>"

text \<open>A new instance built over the store that holds a left-over value, and two draws.\<close>

definition fresh_cache :: cache where
  "fresh_cache = fst (Cache_init stale_store)"

definition fresh_store :: redis where
  "fresh_store = snd (Cache_init stale_store)"

definition uid_a :: string where
  "uid_a = ''123e4567-e89b-42d3-a456-426614174000''"

definition uid_b :: string where
  "uid_b = ''9f8b2c1d-0a3e-4f5b-8c7d-6e5f4a3b2c1d''"

text \<open>
  A stand-in for the Unicode database, which has the zero width space and the no-break
  space as not printable, and an int of 5001 digits.
\<close>

definition some_ucd :: unicode_db where
  "some_ucd n = (n \<noteq> 8203 \<and> n \<noteq> 160)"

definition huge_int :: int where
  "huge_int = int (10 ^ 5000)"

text \<open>Two calls of \<open>store\<close>: a number, then a text.\<close>

definition two_calls :: "(string \<times> pyval list) list" where
  "two_calls = [(uid_a, [PInt 42]), (uid_b, [PStr ''foo''])]"

text \<open>
  A world with an empty store and no request made, and four networks: a page that
  changes after the first request, a page that is empty at first, a server that answers
  304 with a body, and a server that refuses the first connection.
\<close>

definition blank_world :: world where
  "blank_world = \<lparr>redis_store = empty_store, requested = []\<rparr>"

definition ok_response :: "string \<Rightarrow> string \<Rightarrow> http_result" where
  "ok_response url body =
     Responded \<lparr>status_code = 200, reason = ''OK'', resp_url = url, resp_text = body\<rparr>"

definition changing_site :: internet where
  "changing_site n url = (if n = 0 then ok_response url ''<html>'' else ok_response url ''new'')"

definition empty_site :: internet where
  "empty_site n url = (if n = 0 then ok_response url [] else ok_response url ''new'')"

definition not_modified_site :: internet where
  "not_modified_site n url =
     Responded \<lparr>status_code = 304, reason = ''Not Modified'', resp_url = url,
                resp_text = ''stale body''\<rparr>"

definition down_site :: internet where
  "down_site n url = (if n = 0 then Failed ''connection refused'' else ok_response url ''back'')"

text \<open>The world one time unit after an empty page was fetched and cached.\<close>

definition after_empty_page :: world where
  "after_empty_page = wait 1 (snd (get_page empty_site ''http://a.example'' blank_world))"

section \<open>Decimal numbers read back\<close>

lemma digit_char_props:
  assumes "d < 10"
  shows "is_digit (digit_char d)" "digit_val (digit_char d) = d"
    "(digit_char d = CHR ''0'') = (d = 0)" "\<not> is_space (digit_char d)"
    "digit_char d \<noteq> CHR ''-''" "digit_char d \<noteq> CHR ''+''" "digit_char d \<noteq> CHR ''_''"
    "(of_char (digit_char d) :: nat) < 128"
proof -
  have "d \<in> {0,1,2,3,4,5,6,7,8,9}" using assms by auto
  then show "is_digit (digit_char d)" "digit_val (digit_char d) = d"
    "(digit_char d = CHR ''0'') = (d = 0)" "\<not> is_space (digit_char d)"
    "digit_char d \<noteq> CHR ''-''" "digit_char d \<noteq> CHR ''+''" "digit_char d \<noteq> CHR ''_''"
    "(of_char (digit_char d) :: nat) < 128"
    by (auto simp: is_digit_def digit_val_def digit_char_def is_space_def)
qed

lemma digits_nonempty: "digits_of_nat n \<noteq> []"
  by (subst digits_of_nat.simps) simp

lemma digits_all_digit: "list_all is_digit (digits_of_nat n)"
proof (induction n rule: digits_of_nat.induct)
  case (1 n)
  show ?case
    by (subst digits_of_nat.simps) (use 1 in \<open>auto simp: digit_char_props\<close>)
qed

lemma digits_zero: "digits_of_nat 0 = ''0''"
  by (subst digits_of_nat.simps) (simp add: digit_char_def)

lemma digits_hd: "0 < n \<Longrightarrow> hd (digits_of_nat n) \<noteq> CHR ''0''"
proof (induction n rule: digits_of_nat.induct)
  case (1 n)
  show ?case
  proof (cases "n < 10")
    case True
    with 1 show ?thesis by (subst digits_of_nat.simps) (simp add: digit_char_props)
  next
    case False
    then have "0 < n div 10" by simp
    with 1 False have "hd (digits_of_nat (n div 10)) \<noteq> CHR ''0''" by simp
    then show ?thesis using False
      by (subst digits_of_nat.simps) (simp add: digits_nonempty)
  qed
qed

lemma nat_of_digits_snoc: "nat_of_digits (s @ [c]) = 10 * nat_of_digits s + digit_val c"
  by (simp add: nat_of_digits_def)

lemma nat_of_digits_digits: "nat_of_digits (digits_of_nat n) = n"
proof (induction n rule: digits_of_nat.induct)
  case (1 n)
  show ?case
  proof (cases "n < 10")
    case True
    then show ?thesis
      by (subst digits_of_nat.simps) (simp add: nat_of_digits_def digit_char_props)
  next
    case False
    with 1 have "nat_of_digits (digits_of_nat (n div 10)) = n div 10" by simp
    then show ?thesis using False
      by (subst digits_of_nat.simps) (simp add: nat_of_digits_snoc digit_char_props)
  qed
qed

lemma canonical_digits_pos: "0 < n \<Longrightarrow> canonical_digits (digits_of_nat n)"
  by (simp add: canonical_digits_def digits_nonempty digits_all_digit digits_hd)

lemma digits_not_zero: "0 < n \<Longrightarrow> digits_of_nat n \<noteq> ''0''"
  using digits_hd [of n] by auto

lemma digits_hd_digit: "is_digit (hd (digits_of_nat n))"
  using digits_all_digit [of n] digits_nonempty [of n]
  by (cases "digits_of_nat n") auto

lemma string2ll_str_of_int:
  assumes "0 \<le> n" "n \<le> 9223372036854775807"
  shows "string2ll (str_of_int n) = Some n"
proof (cases "n = 0")
  case True
  then show ?thesis by (simp add: string2ll_def str_of_int_def digits_zero)
next
  case False
  with assms have pos: "0 < nat n" by simp
  have "hd (digits_of_nat (nat n)) \<noteq> CHR ''-''"
    using digits_hd_digit [of "nat n"] by (auto simp: is_digit_def)
  then show ?thesis using assms pos
    by (simp add: string2ll_def str_of_int_def digits_not_zero digits_nonempty
        canonical_digits_pos nat_of_digits_digits)
qed

lemma literal_body_digits: "s \<noteq> [] \<Longrightarrow> list_all is_digit s \<Longrightarrow> literal_body s"
proof (induction s rule: literal_body.induct)
  case (3 c d cs)
  then show ?case by (auto simp: is_digit_def)
qed auto

lemma strip_digits:
  assumes "s \<noteq> []" "list_all is_digit s"
  shows "strip s = s"
proof -
  have sp: "\<And>c. is_digit c \<Longrightarrow> \<not> is_space c" by (auto simp: is_digit_def is_space_def)
  have "\<not> is_space (hd s)" using assms sp by (cases s) auto
  then have a: "dropWhile is_space s = s" using assms by (cases s) auto
  have "\<not> is_space (hd (rev s))" using assms sp
    by (simp add: hd_rev list_all_iff)
  then have "dropWhile is_space (rev s) = rev s" using assms by (cases "rev s") auto
  with a show ?thesis by (simp add: strip_def)
qed

lemma int_of_literal_str_of_int:
  assumes "0 \<le> n"
  shows "int_of_literal (str_of_int n) = Inr n"
proof -
  let ?s = "digits_of_nat (nat n)"
  have ne: "?s \<noteq> []" by (rule digits_nonempty)
  have ad: "list_all is_digit ?s" by (rule digits_all_digit)
  have hd: "hd ?s \<noteq> CHR ''-''" "hd ?s \<noteq> CHR ''+''"
    using digits_hd_digit [of "nat n"] by (auto simp: is_digit_def)
  have f: "filter is_digit ?s = ?s" using ad by (simp add: list_all_iff)
  show ?thesis using assms ne hd
    by (simp add: int_of_literal_def str_of_int_def strip_digits [OF ne ad] Let_def
        literal_body_digits [OF ne ad] f nat_of_digits_digits)
qed

lemma digits_pow10: "length (digits_of_nat (10 ^ k)) = Suc k"
proof (induction k)
  case 0
  show ?case by (subst digits_of_nat.simps) simp
next
  case (Suc k)
  have "\<not> (10 :: nat) * 10 ^ k < 10" by simp
  then have "digits_of_nat (10 * 10 ^ k) =
      digits_of_nat (10 ^ k) @ [digit_char ((10 * 10 ^ k) mod 10)]"
    by (subst digits_of_nat.simps) simp
  with Suc show ?case by simp
qed

lemma huge_int_too_long: "int_too_long huge_int"
proof -
  have len: "length (digits_of_nat (nat \<bar>huge_int\<bar>)) = Suc 5000"
    unfolding huge_int_def by (simp only: abs_of_nat nat_int digits_pow10)
  show ?thesis
    unfolding int_too_long_def max_str_digits_def len by simp
qed

section \<open>The effect of the store commands on one key and on the others\<close>

lemma value_at_set:
  assumes "encode v = Inr b"
  shows "fst (redis_set k v r) = Inr True"
    and "value_at (snd (redis_set k v r)) k = Some (RString b)"
    and "k' \<noteq> k \<Longrightarrow> value_at (snd (redis_set k v r)) k' = value_at r k'"
    and "applied (snd (redis_set k v r)) = applied r @ [SET k b]"
    and "clock (snd (redis_set k v r)) = clock r"
  using assms by (auto simp: redis_set_def value_at_def live_def split: option.splits)

lemma redis_set_fails: "encode v = Inl e \<Longrightarrow> redis_set k v r = (Inl e, r)"
  by (simp add: redis_set_def)

lemma value_at_rpush:
  assumes "encode v = Inr b"
    and "value_at r k = (if xs = [] then None else Some (RList xs))"
  shows "fst (redis_rpush k v r) = Inr (length xs + 1)"
    and "value_at (snd (redis_rpush k v r)) k = Some (RList (xs @ [b]))"
    and "k' \<noteq> k \<Longrightarrow> value_at (snd (redis_rpush k v r)) k' = value_at r k'"
    and "applied (snd (redis_rpush k v r)) = applied r @ [RPUSH k b]"
    and "clock (snd (redis_rpush k v r)) = clock r"
  using assms
  by (auto simp: redis_rpush_def value_at_def live_def split: option.splits rvalue.splits if_splits)

lemma value_at_incr:
  assumes "value_at r k = (if n = 0 then None else Some (RString (str_of_int (int n))))"
    and "int n < 9223372036854775807"
  shows "fst (redis_incr k r) = Inr (int n + 1)"
    and "value_at (snd (redis_incr k r)) k = Some (RString (str_of_int (int (Suc n))))"
    and "k' \<noteq> k \<Longrightarrow> value_at (snd (redis_incr k r)) k' = value_at r k'"
    and "applied (snd (redis_incr k r)) = applied r @ [INCR k]"
    and "clock (snd (redis_incr k r)) = clock r"
  using assms
  by (auto simp: redis_incr_def value_at_def live_def string2ll_str_of_int add.commute
      split: option.splits rvalue.splits if_splits)

section \<open>One call of the instrumented store\<close>

lemma is_uuid4_length: "is_uuid4 s \<Longrightarrow> length s = 36"
  by (auto simp: is_uuid4_def dest: list_all2_lengthD)

lemma uuid_not_key:
  assumes "is_uuid4 uid"
  shows "uid \<noteq> ''Cache.store''" "uid \<noteq> ''Cache.store:inputs''" "uid \<noteq> ''Cache.store:outputs''"
  using is_uuid4_length [OF assms] by auto

lemma pair_fst_snd: "fst p = a \<Longrightarrow> p = (a, snd p)"
  by (cases p) simp

lemma str_args_formats: "formats args \<Longrightarrow> str_args ucd args = Inr (str_tuple ucd args)"
  by (simp add: str_args_def formats_def)

lemma str_args_raises: "\<not> formats args \<Longrightarrow> str_args ucd args = Inl ValueError"
  by (simp add: str_args_def formats_def)

lemma Cache_store_unformatted:
  assumes "redis_attr self = RedisClient" and "\<not> formats args"
  shows "Cache_store ucd uid self args r = (Inl ValueError, r)"
  using assms
  by (simp add: Cache_store_def call_history_def isinstance_Redis_def str_args_raises)

lemma Cache_store_prefix:
  fixes args :: "pyval list" and r :: redis and ucd :: unicode_db
  assumes h: "redis_attr self = RedisClient"
    and tr: "tracked ''Cache.store'' n ins outs r"
    and bound: "int n < 9223372036854775807"
    and fm: "formats args"
  defines "r1 \<equiv> snd (redis_rpush ''Cache.store:inputs'' (PStr (str_tuple ucd args)) r)"
  defines "r2 \<equiv> snd (redis_incr ''Cache.store'' r1)"
  shows "Cache_store ucd uid self args r =
      (case store uid self args r2 of
         (Inl e, r3) \<Rightarrow> (Inl e, r3)
       | (Inr output, r3) \<Rightarrow>
           (case redis_rpush ''Cache.store:outputs'' output r3 of
              (Inl e, r4) \<Rightarrow> (Inl e, r4)
            | (Inr m, r4) \<Rightarrow> (Inr output, r4)))"
    and "tracked ''Cache.store'' (Suc n) (ins @ [str_tuple ucd args]) outs r2"
    and "applied r2 = applied r @ [RPUSH ''Cache.store:inputs'' (str_tuple ucd args), INCR ''Cache.store'']"
    and "\<And>k. k \<noteq> ''Cache.store'' \<Longrightarrow> k \<noteq> ''Cache.store:inputs'' \<Longrightarrow> value_at r2 k = value_at r k"
proof -
  let ?t = "str_tuple ucd args"
  have enc: "encode (PStr ?t) = Inr ?t" by (simp add: encode_utf8_def)
  have ti: "value_at r ''Cache.store:inputs'' = (if ins = [] then None else Some (RList ins))"
    using tr by (simp add: tracked_def)
  have p1: "redis_rpush ''Cache.store:inputs'' (PStr ?t) r = (Inr (length ins + 1), r1)"
    unfolding r1_def by (rule pair_fst_snd) (rule value_at_rpush(1) [OF enc ti])
  have c1: "value_at r1 ''Cache.store'' = (if n = 0 then None else Some (RString (str_of_int (int n))))"
    using tr value_at_rpush(3) [OF enc ti, of "''Cache.store''"] by (simp add: tracked_def r1_def)
  have p2: "redis_incr ''Cache.store'' r1 = (Inr (int n + 1), r2)"
    unfolding r2_def by (rule pair_fst_snd) (rule value_at_incr(1) [OF c1 bound])
  show "Cache_store ucd uid self args r =
      (case store uid self args r2 of
         (Inl e, r3) \<Rightarrow> (Inl e, r3)
       | (Inr output, r3) \<Rightarrow>
           (case redis_rpush ''Cache.store:outputs'' output r3 of
              (Inl e, r4) \<Rightarrow> (Inl e, r4)
            | (Inr m, r4) \<Rightarrow> (Inr output, r4)))"
    using h p1 p2 str_args_formats [OF fm, of ucd]
    by (simp add: Cache_store_def call_history_def count_calls_def isinstance_Redis_def
        split: prod.splits sum.splits)
  have i1: "value_at r1 ''Cache.store:inputs'' = Some (RList (ins @ [?t]))"
    unfolding r1_def by (rule value_at_rpush(2) [OF enc ti])
  have o1: "value_at r1 ''Cache.store:outputs'' = (if outs = [] then None else Some (RList outs))"
    using tr value_at_rpush(3) [OF enc ti, of "''Cache.store:outputs''"]
    by (simp add: tracked_def r1_def)
  show "tracked ''Cache.store'' (Suc n) (ins @ [?t]) outs r2"
    using value_at_incr(2) [OF c1 bound] value_at_incr(3) [OF c1 bound, of "''Cache.store:inputs''"]
      value_at_incr(3) [OF c1 bound, of "''Cache.store:outputs''"] i1 o1
    by (simp add: tracked_def r2_def)
  show "applied r2 = applied r @ [RPUSH ''Cache.store:inputs'' ?t, INCR ''Cache.store'']"
    using value_at_incr(4) [OF c1 bound] value_at_rpush(4) [OF enc ti]
    by (simp add: r2_def r1_def)
  show "\<And>k. k \<noteq> ''Cache.store'' \<Longrightarrow> k \<noteq> ''Cache.store:inputs'' \<Longrightarrow> value_at r2 k = value_at r k"
    using value_at_incr(3) [OF c1 bound] value_at_rpush(3) [OF enc ti]
    by (simp add: r2_def r1_def)
qed

section \<open>Reading an absent identifier\<close>

text \<open>
  C8. For an identifier the store does not hold, \<open>Cache.get\<close> without a transform returns
  None and does not raise, while \<open>get_str\<close> and \<open>get_int\<close> raise: the transform is applied
  to None unguarded (\<open>None.decode\<close> is an AttributeError, \<open>int(None)\<close> a TypeError).
\<close>

theorem C8_absent_identifier:
  assumes "live r key = None"
  shows "Cache_get self key None r = Inr PNone
         \<and> Cache_get_str self key r = Inl AttributeError
         \<and> Cache_get_int self key r = Inl TypeError"
  using assms
  by (cases "redis_attr self")
     (simp_all add: Cache_get_def Cache_get_str_def Cache_get_int_def handle_get_def
        redis_get_def reply_value_def decode_lambda_def int_lambda_def)

text \<open>The hypothesis of C8 holds for a key of the empty store.\<close>

theorem C8_absent_identifier_witness:
  "live empty_store ''no-such-key'' = None
   \<and> Cache_get \<lparr>redis_attr = RedisClient\<rparr> ''no-such-key'' None empty_store = Inr PNone
   \<and> Cache_get_str \<lparr>redis_attr = RedisClient\<rparr> ''no-such-key'' empty_store = Inl AttributeError
   \<and> Cache_get_int \<lparr>redis_attr = RedisClient\<rparr> ''no-such-key'' empty_store = Inl TypeError"
proof -
  have h: "live empty_store ''no-such-key'' = None"
    by (simp add: live_def empty_store_def)
  show ?thesis
    using h C8_absent_identifier [OF h, of "\<lparr>redis_attr = RedisClient\<rparr>"] by simp
qed

section \<open>Construction\<close>


section \<open>What a command that succeeded has done\<close>

lemma redis_rpush_InrD:
  assumes "redis_rpush k v r = (Inr n, r')"
  shows "\<exists>b. encode v = Inr b \<and> applied r' = applied r @ [RPUSH k b]
           \<and> (\<exists>xs. value_at r' k = Some (RList xs))"
    and "\<And>k'. k' \<noteq> k \<Longrightarrow> value_at r' k' = value_at r k'"
  using assms
  by (auto simp: redis_rpush_def value_at_def live_def
      split: sum.splits option.splits rvalue.splits if_splits)

lemma redis_incr_InrD:
  assumes "redis_incr k r = (Inr n, r')"
  shows "applied r' = applied r @ [INCR k]"
    and "\<And>k'. k' \<noteq> k \<Longrightarrow> value_at r' k' = value_at r k'"
  using assms
  by (auto simp: redis_incr_def value_at_def live_def
      split: sum.splits option.splits rvalue.splits if_splits)

lemma redis_set_InrD:
  assumes "redis_set k v r = (Inr ok, r')"
  shows "\<exists>b. encode v = Inr b \<and> applied r' = applied r @ [SET k b]
           \<and> value_at r' k = Some (RString b)"
  using assms
  by (auto simp: redis_set_def value_at_def live_def split: sum.splits)

lemma redis_get_value_at:
  "redis_get k r =
     (case value_at r k of
        None \<Rightarrow> Inr None
      | Some (RString b) \<Rightarrow> Inr (Some b)
      | Some (RList xs) \<Rightarrow> Inl (ResponseError WRONGTYPE))"
  by (simp add: redis_get_def value_at_def split: option.splits rvalue.splits)

lemma Cache_store_InrE:
  assumes h: "redis_attr self = RedisClient"
    and ok: "Cache_store ucd uid self args r = (Inr k, r')"
  obtains v n r1 m r2 r3 l where
    "args = [v]" "k = PStr uid"
    "redis_rpush ''Cache.store:inputs'' (PStr (str_tuple ucd args)) r = (Inr n, r1)"
    "redis_incr ''Cache.store'' r1 = (Inr m, r2)"
    "redis_set uid v r2 = (Inr True, r3)"
    "redis_rpush ''Cache.store:outputs'' (PStr uid) r3 = (Inr l, r')"
  using assms
  by (auto simp: Cache_store_def call_history_def count_calls_def store_def handle_set_def
      isinstance_Redis_def redis_set_def str_args_def
      split: prod.splits sum.splits list.splits if_splits)

section \<open>Store and read back\<close>

lemmas store_defs =
  Cache_store_def call_history_def count_calls_def store_def handle_set_def
  isinstance_Redis_def redis_set_def redis_rpush_def redis_incr_def live_def
  encode_utf8_def str_args_def str_tuple_def str_of_int_def digits_of_nat.simps digit_char_def
  repr_int_def int_too_long_def max_str_digits_def
  repr_str_def repr_quote_def repr_str_char_def repr_ascii_char_def utf8_len_def
  escape_common_def
  repr_bytes_def repr_bytes_char_def string2ll_def canonical_digits_def
  nat_of_digits_def is_digit_def digit_val_def Let_def

lemmas example_defs =
  fresh_cache_def fresh_store_def Cache_init_def redis_flushdb_def stale_store_def
  empty_store_def uid_a_def uid_b_def

lemma redis_rpush_not_string:
  assumes "redis_rpush k v r = (Inr n, r')"
  shows "value_at r k \<noteq> Some (RString s)"
  using assms
  by (auto simp: redis_rpush_def value_at_def live_def
      split: sum.splits option.splits rvalue.splits if_splits)

text \<open>
  C1, amended. When \<open>Cache.store\<close> returns on an instance with a client, \<open>Cache.get\<close> with
  the returned identifier and no transform returns the bytes the client sent for the
  value: the value itself when it was binary, its UTF-8 bytes when it was a text, the
  bytes of its \<open>repr\<close> when it was a number. It returns the value unchanged exactly when
  the value was binary.
\<close>

theorem C1_get_returns_the_bytes_stored:
  assumes h: "redis_attr self = RedisClient"
    and ok: "Cache_store ucd uid self [v] r = (Inr k, r')"
  shows "k = PStr uid
         \<and> (\<exists>b. encode v = Inr b \<and> Cache_get self uid None r' = Inr (PBytes b))
         \<and> (Cache_get self uid None r' = Inr v) = (\<exists>b. v = PBytes b)"
proof -
  from h ok obtain v' n r1 m r2 r3 l where
    args: "[v] = [v']" and k: "k = PStr uid"
    and set: "redis_set uid v' r2 = (Inr True, r3)"
    and out: "redis_rpush ''Cache.store:outputs'' (PStr uid) r3 = (Inr l, r')"
    by (rule Cache_store_InrE)
  from args have v': "v' = v" by simp
  from set obtain b where enc: "encode v = Inr b" and at3: "value_at r3 uid = Some (RString b)"
    using redis_set_InrD [of uid v' r2 True r3] v' by auto
  have ne: "uid \<noteq> ''Cache.store:outputs''"
    using redis_rpush_not_string [OF out, of b] at3 by auto
  have "value_at r' uid = Some (RString b)"
    using redis_rpush_InrD(2) [OF out ne] at3 by simp
  then have get: "Cache_get self uid None r' = Inr (PBytes b)"
    using h by (simp add: Cache_get_def handle_get_def redis_get_value_at reply_value_def)
  have "(Inr (PBytes b) = (Inr v :: error + pyval)) = (\<exists>b. v = PBytes b)"
    using enc by (cases v) auto
  with k enc get show ?thesis by auto
qed

text \<open>
  C1 as stated fails for a number: \<open>store(42)\<close> and then \<open>get\<close> gives the bytes \<open>b'42'\<close>,
  which is not the int 42.
\<close>

theorem C1_number_comes_back_as_bytes:
  "fst (Cache_store some_ucd uid_a fresh_cache [PInt 42] fresh_store) = Inr (PStr uid_a)
   \<and> Cache_get fresh_cache uid_a None (snd (Cache_store some_ucd uid_a fresh_cache [PInt 42] fresh_store))
       = Inr (PBytes ''42'')
   \<and> Cache_get fresh_cache uid_a None (snd (Cache_store some_ucd uid_a fresh_cache [PInt 42] fresh_store))
       \<noteq> Inr (PInt 42)"
  by (simp add: store_defs example_defs Cache_get_def handle_get_def redis_get_def reply_value_def)

text \<open>The hypotheses of C1 hold for a byte string stored on a new instance.\<close>

theorem C1_get_returns_the_bytes_stored_witness:
  "redis_attr fresh_cache = RedisClient
   \<and> fst (Cache_store some_ucd uid_b fresh_cache [PBytes ''foo''] fresh_store) = Inr (PStr uid_b)
   \<and> Cache_get fresh_cache uid_b None (snd (Cache_store some_ucd uid_b fresh_cache [PBytes ''foo''] fresh_store))
       = Inr (PBytes ''foo'')"
proof -
  let ?p = "Cache_store some_ucd uid_b fresh_cache [PBytes ''foo''] fresh_store"
  have h: "redis_attr fresh_cache = RedisClient" by (simp add: example_defs)
  have f: "fst ?p = Inr (PStr uid_b)" by (simp add: store_defs example_defs)
  have ok: "?p = (Inr (PStr uid_b), snd ?p)" by (rule pair_fst_snd) (rule f)
  show ?thesis using h f C1_get_returns_the_bytes_stored [OF h ok] by auto
qed

section \<open>The order of the effects of one call\<close>

text \<open>
  C4, amended. A call of the instrumented \<open>Cache.store\<close> that returns applies exactly four
  writes, in this order: the input is appended to the input history (\<open>call_history\<close>,
  the outer wrapper, runs first), then the counter is incremented (\<open>count_calls\<close>, the
  inner wrapper), then the value is set, then the output is appended to the output
  history.
\<close>

theorem C4_order_of_effects:
  assumes h: "redis_attr self = RedisClient"
    and ok: "Cache_store ucd uid self [v] r = (Inr k, r')"
  shows "\<exists>b. encode v = Inr b
           \<and> applied r' = applied r @
               [RPUSH ''Cache.store:inputs'' (str_tuple ucd [v]),
                INCR ''Cache.store'',
                SET uid b,
                RPUSH ''Cache.store:outputs'' uid]"
proof -
  from h ok obtain v' n r1 m r2 r3 l where
    args: "[v] = [v']"
    and inp: "redis_rpush ''Cache.store:inputs'' (PStr (str_tuple ucd [v])) r = (Inr n, r1)"
    and inc: "redis_incr ''Cache.store'' r1 = (Inr m, r2)"
    and set: "redis_set uid v' r2 = (Inr True, r3)"
    and out: "redis_rpush ''Cache.store:outputs'' (PStr uid) r3 = (Inr l, r')"
    by (rule Cache_store_InrE)
  from args have v': "v' = v" by simp
  have a1: "applied r1 = applied r @ [RPUSH ''Cache.store:inputs'' (str_tuple ucd [v])]"
    using redis_rpush_InrD(1) [OF inp] by (auto simp: encode_utf8_def)
  have a2: "applied r2 = applied r1 @ [INCR ''Cache.store'']"
    by (rule redis_incr_InrD(1) [OF inc])
  obtain b where enc: "encode v = Inr b" and a3: "applied r3 = applied r2 @ [SET uid b]"
    using redis_set_InrD [OF set] v' by auto
  have a4: "applied r' = applied r3 @ [RPUSH ''Cache.store:outputs'' uid]"
    using redis_rpush_InrD(1) [OF out] by (auto simp: encode_utf8_def)
  show ?thesis using enc a1 a2 a3 a4 by simp
qed

text \<open>
  C4 as stated has the first two effects in the wrong order: the input is logged before
  the counter is incremented.
\<close>

theorem C4_input_is_logged_before_the_count:
  "applied fresh_store = [FLUSHDB True]
   \<and> applied (snd (Cache_store some_ucd uid_a fresh_cache [PInt 42] fresh_store)) =
       [FLUSHDB True,
        RPUSH ''Cache.store:inputs'' ''(42,)'',
        INCR ''Cache.store'',
        SET uid_a ''42'',
        RPUSH ''Cache.store:outputs'' uid_a]
   \<and> applied (snd (Cache_store some_ucd uid_a fresh_cache [PInt 42] fresh_store)) \<noteq>
       [FLUSHDB True,
        INCR ''Cache.store'',
        RPUSH ''Cache.store:inputs'' ''(42,)'',
        SET uid_a ''42'',
        RPUSH ''Cache.store:outputs'' uid_a]"
  by (simp add: store_defs example_defs)

text \<open>The hypotheses of C4 hold for a text stored on a new instance.\<close>

theorem C4_order_of_effects_witness:
  "redis_attr fresh_cache = RedisClient
   \<and> fst (Cache_store some_ucd uid_b fresh_cache [PStr ''foo''] fresh_store) = Inr (PStr uid_b)
   \<and> applied (snd (Cache_store some_ucd uid_b fresh_cache [PStr ''foo''] fresh_store)) =
       applied fresh_store @
         [RPUSH ''Cache.store:inputs'' (str_tuple some_ucd [PStr ''foo'']),
          INCR ''Cache.store'',
          SET uid_b ''foo'',
          RPUSH ''Cache.store:outputs'' uid_b]"
proof -
  let ?p = "Cache_store some_ucd uid_b fresh_cache [PStr ''foo''] fresh_store"
  have h: "redis_attr fresh_cache = RedisClient" by (simp add: example_defs)
  have f: "fst ?p = Inr (PStr uid_b)" by (simp add: store_defs example_defs)
  have ok: "?p = (Inr (PStr uid_b), snd ?p)" by (rule pair_fst_snd) (rule f)
  show ?thesis using h f C4_order_of_effects [OF h ok] by (auto simp: encode_utf8_def)
qed

section \<open>Runs of calls on a new instance\<close>

lemma lrange_of_all: "lrange_of xs 0 (- 1) = xs"
  by (cases "xs = []") (simp_all add: lrange_of_def Let_def)

lemma redis_lrange_value_at:
  "redis_lrange k 0 (- 1) r =
     (case value_at r k of
        None \<Rightarrow> Inr []
      | Some (RString b) \<Rightarrow> Inl (ResponseError WRONGTYPE)
      | Some (RList xs) \<Rightarrow> Inr xs)"
  by (simp add: redis_lrange_def value_at_def lrange_of_all split: option.splits rvalue.splits)

lemma tracked_lrange:
  assumes "tracked name n ins outs r"
  shows "redis_lrange (name @ '':inputs'') 0 (- 1) r = Inr ins"
    and "redis_lrange (name @ '':outputs'') 0 (- 1) r = Inr outs"
  using assms by (auto simp: tracked_def redis_lrange_value_at)

lemma tracked_call_counter:
  assumes "tracked name n ins outs r"
  shows "call_counter name r = Inr (int n)"
  using assms
  by (auto simp: tracked_def call_counter_def redis_exists_def redis_get_value_at value_at_def
      int_of_literal_str_of_int split: option.splits if_splits)

lemma tracked_after_init: "tracked name 0 [] [] (snd (Cache_init r0))"
  by (simp add: tracked_def value_at_def live_def Cache_init_def redis_flushdb_def)

lemma returns_cases:
  "returns args = (\<exists>v b. args = [v] \<and> encode v = Inr b)"
  by (auto simp: returns_def split: list.splits sum.splits)

lemma returns_formats: "returns args \<Longrightarrow> formats args"
proof -
  assume "returns args"
  then obtain v b where args: "args = [v]" and enc: "encode v = Inr b"
    by (auto simp: returns_cases)
  from enc have "\<not> repr_raises v"
    by (cases v) (auto simp: repr_int_def split: if_splits)
  with args show ?thesis by (simp add: formats_def)
qed

lemma encode_fails_formatted:
  assumes "formats [v]" and "\<not> returns [v]"
  shows "encode v = Inl DataError"
  using assms
  by (cases v) (auto simp: returns_def formats_def repr_int_def)

lemma Cache_store_step:
  fixes args :: "pyval list" and ucd :: unicode_db
  assumes h: "redis_attr self = RedisClient"
    and uid: "is_uuid4 uid"
    and tr: "tracked ''Cache.store'' n ins outs r"
    and bound: "int n < 9223372036854775807"
    and fm: "formats args"
  shows "tracked ''Cache.store'' (Suc n) (ins @ [str_tuple ucd args])
           (if returns args then outs @ [uid] else outs) (snd (Cache_store ucd uid self args r))"
    and "fst (Cache_store ucd uid self args r) =
           (if returns args then Inr (PStr uid)
            else Inl (if length args = 1 then DataError else TypeError))"
proof -
  define r2 where
    "r2 = snd (redis_incr ''Cache.store''
                 (snd (redis_rpush ''Cache.store:inputs'' (PStr (str_tuple ucd args)) r)))"
  note pre1 = Cache_store_prefix(1) [OF h tr bound fm, where uid = uid and ucd = ucd,
      folded r2_def]
  note pre2 = Cache_store_prefix(2) [OF h tr bound fm, where ucd = ucd, folded r2_def]
  have tr2: "tracked ''Cache.store'' (Suc n) (ins @ [str_tuple ucd args]) outs r2"
    by (rule pre2)
  have goal: "tracked ''Cache.store'' (Suc n) (ins @ [str_tuple ucd args])
           (if returns args then outs @ [uid] else outs) (snd (Cache_store ucd uid self args r))
      \<and> fst (Cache_store ucd uid self args r) =
           (if returns args then Inr (PStr uid)
            else Inl (if length args = 1 then DataError else TypeError))"
  proof (cases "returns args")
    case True
    then obtain v b where args: "args = [v]" and enc: "encode v = Inr b"
      by (auto simp: returns_cases)
    define r3 where "r3 = snd (redis_set uid v r2)"
    have s3: "redis_set uid v r2 = (Inr True, r3)"
      unfolding r3_def by (rule pair_fst_snd) (rule value_at_set(1) [OF enc])
    have st: "store uid self args r2 = (Inr (PStr uid), r3)"
      using h s3 by (simp add: store_def args handle_set_def)
    have fr: "\<And>k. k \<noteq> uid \<Longrightarrow> value_at r3 k = value_at r2 k"
      unfolding r3_def by (rule value_at_set(3) [OF enc])
    have tr3: "tracked ''Cache.store'' (Suc n) (ins @ [str_tuple ucd args]) outs r3"
      using tr2 fr uuid_not_key [OF uid] by (simp add: tracked_def)
    have encu: "encode (PStr uid) = Inr uid" by (simp add: encode_utf8_def)
    have o3: "value_at r3 ''Cache.store:outputs'' = (if outs = [] then None else Some (RList outs))"
      using tr3 by (simp add: tracked_def)
    define r4 where "r4 = snd (redis_rpush ''Cache.store:outputs'' (PStr uid) r3)"
    have p4: "redis_rpush ''Cache.store:outputs'' (PStr uid) r3 = (Inr (length outs + 1), r4)"
      unfolding r4_def by (rule pair_fst_snd) (rule value_at_rpush(1) [OF encu o3])
    have res: "Cache_store ucd uid self args r = (Inr (PStr uid), r4)"
      using pre1 st p4 by simp
    have tr4: "tracked ''Cache.store'' (Suc n) (ins @ [str_tuple ucd args]) (outs @ [uid]) r4"
      using tr3 value_at_rpush(2) [OF encu o3]
        value_at_rpush(3) [OF encu o3, of "''Cache.store''"]
        value_at_rpush(3) [OF encu o3, of "''Cache.store:inputs''"]
      by (simp add: tracked_def r4_def)
    show ?thesis using True res tr4 by simp
  next
    case False
    have "store uid self args r2 = (Inl (if length args = 1 then DataError else TypeError), r2)"
    proof (cases args)
      case Nil
      then show ?thesis by (simp add: store_def)
    next
      case (Cons v rest)
      show ?thesis
      proof (cases rest)
        case Nil
        with Cons False fm have "encode v = Inl DataError"
          by (simp add: encode_fails_formatted)
        then show ?thesis using Cons Nil h
          by (simp add: store_def handle_set_def redis_set_fails)
      next
        case (Cons w ws)
        with \<open>args = v # rest\<close> show ?thesis by (simp add: store_def)
      qed
    qed
    then have "Cache_store ucd uid self args r =
        (Inl (if length args = 1 then DataError else TypeError), r2)"
      using pre1 by simp
    then show ?thesis using False tr2 by simp
  qed
  from goal show "tracked ''Cache.store'' (Suc n) (ins @ [str_tuple ucd args])
           (if returns args then outs @ [uid] else outs) (snd (Cache_store ucd uid self args r))"
    by simp
  from goal show "fst (Cache_store ucd uid self args r) =
           (if returns args then Inr (PStr uid)
            else Inl (if length args = 1 then DataError else TypeError))"
    by simp
qed

lemma store_calls_tracked:
  fixes ucd :: unicode_db
  assumes h: "redis_attr self = RedisClient"
  shows "list_all (\<lambda>c. is_uuid4 (fst c)) calls \<Longrightarrow>
         tracked ''Cache.store'' n ins outs r \<Longrightarrow>
         int n + int (length calls) \<le> 9223372036854775807 \<Longrightarrow>
         tracked ''Cache.store'' (n + length (filter (\<lambda>c. formats (snd c)) calls))
           (ins @ map (\<lambda>c. str_tuple ucd (snd c)) (filter (\<lambda>c. formats (snd c)) calls))
           (outs @ map fst (filter (\<lambda>c. returns (snd c)) calls))
           (snd (store_calls ucd self calls r))
         \<and> fst (store_calls ucd self calls r) =
             map (\<lambda>c. if returns (snd c) then Inr (PStr (fst c))
                       else Inl (if \<not> formats (snd c) then ValueError
                                 else if length (snd c) = 1 then DataError
                                 else TypeError)) calls"
proof (induction calls arbitrary: n ins outs r)
  case Nil
  then show ?case by simp
next
  case (Cons c calls)
  obtain uid args where c: "c = (uid, args)" by (cases c)
  from Cons.prems c have uid: "is_uuid4 uid" and rest: "list_all (\<lambda>c. is_uuid4 (fst c)) calls"
    by simp_all
  from Cons.prems have bound: "int n < 9223372036854775807" by simp
  show ?case
  proof (cases "formats args")
    case True
    note step = Cache_store_step [OF h uid Cons.prems(2) bound True, where ucd = ucd]
    from Cons.prems have "int (Suc n) + int (length calls) \<le> 9223372036854775807" by simp
    from Cons.IH [OF rest step(1) this] step(2) c True
    show ?thesis by (auto simp: split_beta)
  next
    case False
    then have nr: "\<not> returns args" using returns_formats by blast
    have same: "Cache_store ucd uid self args r = (Inl ValueError, r)"
      by (rule Cache_store_unformatted [OF h False])
    from Cons.prems have "int n + int (length calls) \<le> 9223372036854775807" by simp
    from Cons.IH [OF rest Cons.prems(2) this] same c False nr
    show ?thesis by (simp add: split_beta)
  qed
qed

text \<open>The zero width space is logged as its escape, as \<open>repr\<close> writes it.\<close>

lemma str_tuple_zero_width_space:
  "str_tuple some_ucd [PStr [CHR 0xE2, CHR 0x80, CHR 0x8B]] =
     [CHR ''('', CHR 0x27, CHR 0x5C, CHR ''u'', CHR ''2'', CHR ''0'', CHR ''0'', CHR ''b'',
      CHR 0x27, CHR '','', CHR '')'']"
  by (simp add: str_tuple_def repr_str_def repr_quote_def repr_str_char_def code_point_def
      some_ucd_def unicode_escape_def hex_digits_def hex_char_def utf8_len_def upt_rec Let_def)

section \<open>The call counter\<close>

text \<open>
  C5, amended. The counter kept under \<open>Cache.store\<close> counts the invocations that get past
  \<open>str(args)\<close>, the first thing the outer wrapper evaluates. After N invocations on a new
  instance (N below the store's limit for a 64-bit counter) it is the number of those
  whose arguments \<open>str\<close> can format; when no argument is an int of more than 4300
  digits that is every one of them, and the counter is N (the key holding the decimal
  text of N for N above 0). Calls that raise in the body count as well.
\<close>

theorem C5_counter_counts_calls:
  assumes init: "Cache_init r0 = (self, r)"
    and uids: "list_all (\<lambda>c. is_uuid4 (fst c)) calls"
    and bound: "int (length calls) \<le> 9223372036854775807"
  shows "call_counter ''Cache.store'' (snd (store_calls ucd self calls r)) =
           Inr (int (length (filter (\<lambda>c. formats (snd c)) calls)))
         \<and> (list_all (\<lambda>c. formats (snd c)) calls \<longrightarrow>
              call_counter ''Cache.store'' (snd (store_calls ucd self calls r)) =
                Inr (int (length calls))
              \<and> value_at (snd (store_calls ucd self calls r)) ''Cache.store'' =
                  (if calls = [] then None
                   else Some (RString (str_of_int (int (length calls))))))"
proof -
  from init have h: "redis_attr self = RedisClient" and r: "r = snd (Cache_init r0)"
    by (auto simp: Cache_init_def Let_def)
  have tr0: "tracked ''Cache.store'' 0 [] [] r"
    unfolding r by (rule tracked_after_init)
  from bound have b: "int 0 + int (length calls) \<le> 9223372036854775807" by simp
  from store_calls_tracked [OF h uids tr0 b, where ucd = ucd]
  have tr: "tracked ''Cache.store'' (length (filter (\<lambda>c. formats (snd c)) calls))
      (map (\<lambda>c. str_tuple ucd (snd c)) (filter (\<lambda>c. formats (snd c)) calls))
      (map fst (filter (\<lambda>c. returns (snd c)) calls))
      (snd (store_calls ucd self calls r))"
    by simp
  have all: "list_all (\<lambda>c. formats (snd c)) calls \<Longrightarrow>
      filter (\<lambda>c. formats (snd c)) calls = calls"
    by (simp add: list_all_iff)
  show ?thesis using tracked_call_counter [OF tr] tr all by (auto simp: tracked_def)
qed

text \<open>
  C5 as stated fails for an invocation that raises in \<open>str(args)\<close>: \<open>store\<close> called with
  an int of 5001 digits raises ValueError before anything is written, and the counter
  still reads 0 after the one invocation.
\<close>

theorem C5_unformatted_call_is_not_counted:
  "fst (Cache_store some_ucd uid_a fresh_cache [PInt huge_int] fresh_store) = Inl ValueError
   \<and> call_counter ''Cache.store''
        (snd (Cache_store some_ucd uid_a fresh_cache [PInt huge_int] fresh_store)) = Inr 0"
proof -
  have h: "redis_attr fresh_cache = RedisClient" by (simp add: example_defs)
  have nf: "\<not> formats [PInt huge_int]"
    by (simp add: formats_def huge_int_too_long)
  have "call_counter ''Cache.store'' fresh_store = Inr 0"
    using tracked_call_counter [of "''Cache.store''" 0 "[]" "[]" fresh_store]
      tracked_after_init [of "''Cache.store''" stale_store]
    by (simp add: fresh_store_def)
  then show ?thesis by (simp add: Cache_store_unformatted [OF h nf])
qed

lemma two_calls_uids: "list_all (\<lambda>c. is_uuid4 (fst c)) two_calls"
  by (simp add: two_calls_def uid_a_def uid_b_def is_uuid4_def uuid_slot_def)

lemma two_calls_format: "list_all (\<lambda>c. formats (snd c)) two_calls"
  by (simp add: two_calls_def formats_def int_too_long_def max_str_digits_def
      digits_of_nat.simps)

lemma fresh_init: "Cache_init stale_store = (fresh_cache, fresh_store)"
  by (simp add: fresh_cache_def fresh_store_def)

text \<open>The hypotheses of C5 hold for the two calls on the new instance.\<close>

theorem C5_counter_counts_calls_witness:
  "Cache_init stale_store = (fresh_cache, fresh_store)
   \<and> list_all (\<lambda>c. is_uuid4 (fst c)) two_calls
   \<and> int (length two_calls) \<le> 9223372036854775807
   \<and> list_all (\<lambda>c. formats (snd c)) two_calls
   \<and> call_counter ''Cache.store'' (snd (store_calls some_ucd fresh_cache two_calls fresh_store))
       = Inr 2"
proof -
  have b: "int (length two_calls) \<le> 9223372036854775807" by (simp add: two_calls_def)
  have l: "int (length two_calls) = 2" by (simp add: two_calls_def)
  have f: "filter (\<lambda>c. formats (snd c)) two_calls = two_calls"
    using two_calls_format by (simp add: list_all_iff)
  show ?thesis
    using fresh_init two_calls_uids b two_calls_format
      C5_counter_counts_calls [OF fresh_init two_calls_uids b, where ucd = some_ucd]
    by (simp add: l f)
qed

section \<open>The two histories\<close>

text \<open>
  C6, amended. After N calls of \<open>Cache.store\<close> on a new instance the input history holds
  \<open>str(args)\<close> of every call for which \<open>str(args)\<close> did not raise, in call order, and the
  output history holds the identifiers of the calls that returned, in call order. When
  every call returns, both histories have length N, and the k-th input and the k-th
  output are those of call k.
\<close>

theorem C6_histories_of_a_run:
  assumes init: "Cache_init r0 = (self, r)"
    and uids: "list_all (\<lambda>c. is_uuid4 (fst c)) calls"
    and bound: "int (length calls) \<le> 9223372036854775807"
  shows "redis_lrange ''Cache.store:inputs'' 0 (- 1) (snd (store_calls ucd self calls r)) =
           Inr (map (\<lambda>c. str_tuple ucd (snd c)) (filter (\<lambda>c. formats (snd c)) calls))
         \<and> redis_lrange ''Cache.store:outputs'' 0 (- 1) (snd (store_calls ucd self calls r)) =
           Inr (map fst (filter (\<lambda>c. returns (snd c)) calls))
         \<and> (list_all (\<lambda>c. returns (snd c)) calls \<longrightarrow>
              fst (store_calls ucd self calls r) = map (\<lambda>c. Inr (PStr (fst c))) calls
              \<and> redis_lrange ''Cache.store:inputs'' 0 (- 1) (snd (store_calls ucd self calls r)) =
                  Inr (map (\<lambda>c. str_tuple ucd (snd c)) calls)
              \<and> redis_lrange ''Cache.store:outputs'' 0 (- 1) (snd (store_calls ucd self calls r)) =
                  Inr (map fst calls)
              \<and> length (map (\<lambda>c. str_tuple ucd (snd c)) calls) = length calls
              \<and> length (map fst calls) = length calls)"
proof -
  from init have h: "redis_attr self = RedisClient" and r: "r = snd (Cache_init r0)"
    by (auto simp: Cache_init_def Let_def)
  have tr0: "tracked ''Cache.store'' 0 [] [] r"
    unfolding r by (rule tracked_after_init)
  from bound have b: "int 0 + int (length calls) \<le> 9223372036854775807" by simp
  note run = store_calls_tracked [OF h uids tr0 b, where ucd = ucd]
  from run have tr: "tracked ''Cache.store'' (length (filter (\<lambda>c. formats (snd c)) calls))
      (map (\<lambda>c. str_tuple ucd (snd c)) (filter (\<lambda>c. formats (snd c)) calls))
      (map fst (filter (\<lambda>c. returns (snd c)) calls))
      (snd (store_calls ucd self calls r))"
    by simp
  have ins: "redis_lrange ''Cache.store:inputs'' 0 (- 1) (snd (store_calls ucd self calls r)) =
           Inr (map (\<lambda>c. str_tuple ucd (snd c)) (filter (\<lambda>c. formats (snd c)) calls))"
    using tracked_lrange(1) [OF tr] by simp
  have outs: "redis_lrange ''Cache.store:outputs'' 0 (- 1) (snd (store_calls ucd self calls r)) =
           Inr (map fst (filter (\<lambda>c. returns (snd c)) calls))"
    using tracked_lrange(2) [OF tr] by simp
  have all: "list_all (\<lambda>c. returns (snd c)) calls \<Longrightarrow>
      filter (\<lambda>c. returns (snd c)) calls = calls
      \<and> filter (\<lambda>c. formats (snd c)) calls = calls
      \<and> map (\<lambda>c. if returns (snd c) then Inr (PStr (fst c))
                       else Inl (if \<not> formats (snd c) then ValueError
                                 else if length (snd c) = 1 then DataError
                                 else TypeError)) calls
          = map (\<lambda>c. Inr (PStr (fst c))) calls"
    using returns_formats by (auto simp: list_all_iff filter_id_conv)
  show ?thesis using ins outs run all by simp
qed

text \<open>
  C6 as stated fails when a call raises in the body: the input is already logged and no
  output follows. \<open>store(True)\<close> is such a call (the client refuses a bool), and leaves one
  input and no output.
\<close>

theorem C6_raising_call_logs_no_output:
  "fst (Cache_store some_ucd uid_a fresh_cache [PBool True] fresh_store) = Inl DataError
   \<and> redis_lrange ''Cache.store:inputs'' 0 (- 1)
        (snd (Cache_store some_ucd uid_a fresh_cache [PBool True] fresh_store)) = Inr [''(True,)'']
   \<and> redis_lrange ''Cache.store:outputs'' 0 (- 1)
        (snd (Cache_store some_ucd uid_a fresh_cache [PBool True] fresh_store)) = Inr []"
  by (simp add: store_defs example_defs redis_lrange_def lrange_of_def)

text \<open>The hypotheses of C6 hold for the two calls, which both return.\<close>

theorem C6_histories_of_a_run_witness:
  "Cache_init stale_store = (fresh_cache, fresh_store)
   \<and> list_all (\<lambda>c. is_uuid4 (fst c)) two_calls
   \<and> int (length two_calls) \<le> 9223372036854775807
   \<and> list_all (\<lambda>c. returns (snd c)) two_calls
   \<and> fst (store_calls some_ucd fresh_cache two_calls fresh_store) =
       [Inr (PStr uid_a), Inr (PStr uid_b)]
   \<and> redis_lrange ''Cache.store:inputs'' 0 (- 1)
        (snd (store_calls some_ucd fresh_cache two_calls fresh_store))
       = Inr [str_tuple some_ucd [PInt 42], str_tuple some_ucd [PStr ''foo'']]
   \<and> redis_lrange ''Cache.store:outputs'' 0 (- 1)
        (snd (store_calls some_ucd fresh_cache two_calls fresh_store))
       = Inr [uid_a, uid_b]"
proof -
  have b: "int (length two_calls) \<le> 9223372036854775807" by (simp add: two_calls_def)
  have ret: "list_all (\<lambda>c. returns (snd c)) two_calls"
    by (simp add: two_calls_def returns_def encode_utf8_def repr_int_def int_too_long_def
        max_str_digits_def digits_of_nat.simps)
  have ins: "map (\<lambda>c. str_tuple some_ucd (snd c)) two_calls =
      [str_tuple some_ucd [PInt 42], str_tuple some_ucd [PStr ''foo'']]"
    by (simp add: two_calls_def)
  have outs: "map fst two_calls = [uid_a, uid_b]" by (simp add: two_calls_def)
  have res: "map (\<lambda>c. Inr (PStr (fst c)) :: error + pyval) two_calls =
      [Inr (PStr uid_a), Inr (PStr uid_b)]"
    by (simp add: two_calls_def)
  note t = C6_histories_of_a_run [OF fresh_init two_calls_uids b, where ucd = some_ucd]
  from t ret have k:
    "fst (store_calls some_ucd fresh_cache two_calls fresh_store) =
       map (\<lambda>c. Inr (PStr (fst c))) two_calls
     \<and> redis_lrange ''Cache.store:inputs'' 0 (- 1)
          (snd (store_calls some_ucd fresh_cache two_calls fresh_store)) =
         Inr (map (\<lambda>c. str_tuple some_ucd (snd c)) two_calls)
     \<and> redis_lrange ''Cache.store:outputs'' 0 (- 1)
          (snd (store_calls some_ucd fresh_cache two_calls fresh_store)) =
         Inr (map fst two_calls)"
    by blast
  show ?thesis
    using fresh_init two_calls_uids b ret k
    by (simp add: ins outs res)
qed

section \<open>Replay\<close>

lemma replay_lines_valid:
  "list_all (\<lambda>p. utf8_valid (fst p)) ps \<Longrightarrow>
   replay_lines name ps = (map (replay_line name) ps, None)"
  by (induction ps) (auto simp: decode_utf8_def replay_line_def)

text \<open>
  C9. \<open>replay\<close> returns without printing and without raising when it is given None, a
  callable with no bound instance, or a method of an instance whose \<open>_redis\<close> is missing
  or is not a client of the store. Given a method of an instance with a client, and the
  keys of the operation as the instrumentation leaves them (the inputs it pairs being
  UTF-8, as \<open>str(args)\<close> is), it prints the recorded count and then one line per pair of
  the zipped histories, in recorded order, and raises nothing.
\<close>

theorem C9_replay:
  "replay NoCallable r = ([], None)
   \<and> replay (Function name) r = ([], None)
   \<and> replay (BoundMethod None name) r = ([], None)
   \<and> replay (BoundMethod (Some Stub) name) r = ([], None)
   \<and> (tracked name n ins outs r \<and> list_all (\<lambda>p. utf8_valid (fst p)) (zip ins outs) \<longrightarrow>
        replay (BoundMethod (Some RedisClient) name) r =
          ((name @ '' was called '' @ str_of_int (int n) @ '' times:'')
             # map (replay_line name) (zip ins outs),
           None))"
proof -
  have "replay (BoundMethod (Some RedisClient) name) r =
          ((name @ '' was called '' @ str_of_int (int n) @ '' times:'')
             # map (replay_line name) (zip ins outs),
           None)"
    if tr: "tracked name n ins outs r"
      and ok: "list_all (\<lambda>p. utf8_valid (fst p)) (zip ins outs)"
    using tracked_call_counter [OF tr] tracked_lrange [OF tr] replay_lines_valid [OF ok]
    by (simp add: replay_def isinstance_Redis_def)
  then show ?thesis
    by (simp add: replay_def isinstance_Redis_def)
qed

lemmas utf8_defs =
  utf8_valid_def utf8_head_def conts_def first_cont_def is_cont_def

text \<open>The hypotheses of C9 hold after the two calls on the new instance.\<close>

theorem C9_replay_witness:
  "tracked ''Cache.store'' 2 [''(42,)'', str_tuple some_ucd [PStr ''foo'']] [uid_a, uid_b]
     (snd (store_calls some_ucd fresh_cache two_calls fresh_store))
   \<and> list_all (\<lambda>p. utf8_valid (fst p)) (zip [''(42,)'', str_tuple some_ucd [PStr ''foo'']] [uid_a, uid_b])
   \<and> replay (BoundMethod (Some (redis_attr fresh_cache)) ''Cache.store'')
        (snd (store_calls some_ucd fresh_cache two_calls fresh_store)) =
       ([''Cache.store was called 2 times:'',
         ''Cache.store(*(42,)) -> '' @ repr_bytes uid_a,
         ''Cache.store(*'' @ str_tuple some_ucd [PStr ''foo''] @ '') -> '' @ repr_bytes uid_b],
        None)"
proof -
  have h: "redis_attr fresh_cache = RedisClient" by (simp add: example_defs)
  have b: "int 0 + int (length two_calls) \<le> 9223372036854775807" by (simp add: two_calls_def)
  have tr0: "tracked ''Cache.store'' 0 [] [] fresh_store"
    unfolding fresh_store_def by (rule tracked_after_init)
  have len: "length two_calls = 2" by (simp add: two_calls_def)
  have fm: "filter (\<lambda>c. formats (snd c)) two_calls = two_calls"
    using two_calls_format by (simp add: list_all_iff)
  have ins: "map (\<lambda>c. str_tuple some_ucd (snd c)) two_calls =
      [''(42,)'', str_tuple some_ucd [PStr ''foo'']]"
    by (simp add: two_calls_def str_tuple_def str_of_int_def digits_of_nat.simps digit_char_def)
  have outs: "map fst (filter (\<lambda>c. returns (snd c)) two_calls) = [uid_a, uid_b]"
    by (simp add: two_calls_def returns_def encode_utf8_def repr_int_def int_too_long_def
        max_str_digits_def digits_of_nat.simps)
  have tr: "tracked ''Cache.store'' 2 [''(42,)'', str_tuple some_ucd [PStr ''foo'']] [uid_a, uid_b]
     (snd (store_calls some_ucd fresh_cache two_calls fresh_store))"
    using store_calls_tracked [OF h two_calls_uids tr0 b, where ucd = some_ucd]
    by (simp add: len fm ins outs numeral_2_eq_2)
  have ok: "list_all (\<lambda>p. utf8_valid (fst p))
      (zip [''(42,)'', str_tuple some_ucd [PStr ''foo'']] [uid_a, uid_b])"
    by (simp add: utf8_defs str_tuple_def repr_str_def repr_quote_def repr_str_char_def
        repr_ascii_char_def utf8_len_def escape_common_def Let_def)
  show ?thesis
    using tr ok h
      C9_replay [where name = "''Cache.store''" and n = 2
        and ins = "[''(42,)'', str_tuple some_ucd [PStr ''foo'']]" and outs = "[uid_a, uid_b]"
        and r = "snd (store_calls some_ucd fresh_cache two_calls fresh_store)"]
    by (simp add: replay_line_def str_of_int_def digits_of_nat.simps digit_char_def)
qed

section \<open>One call of \<open>get_page\<close>\<close>

lemma live_same: "db r' k = db r k \<Longrightarrow> clock r' = clock r \<Longrightarrow> live r' k = live r k"
  by (simp add: live_def split: option.splits)

lemma incr_counts:
  assumes "counts r k n" and "int n < 9223372036854775807"
  shows "redis_incr k r =
     (Inr (int n + 1),
      r\<lparr>db := (db r)(k \<mapsto> \<lparr>content = RString (str_of_int (int (Suc n))), expire_at = None\<rparr>),
        applied := applied r @ [INCR k]\<rparr>)"
  using assms
  by (auto simp: counts_def redis_incr_def live_def string2ll_str_of_int add.commute
      split: if_splits)

lemma get_page_body_eq:
  "get_page_body net url w =
     (fst (get_page_body net url w), w\<lparr>requested := requested w @ [url]\<rparr>)"
  by (simp add: get_page_body_def Let_def split: http_result.splits option.splits)

lemma get_page_body_store:
  "fst (get_page_body net url (w\<lparr>redis_store := s\<rparr>)) = fst (get_page_body net url w)"
  by (simp add: get_page_body_def Let_def split: http_result.splits option.splits)

lemma get_page_body_Inr: "\<exists>c. fst (get_page_body net url w) = Inr c"
  by (simp add: get_page_body_def Let_def split: http_result.splits option.splits)

lemma key_names: "''count:'' @ url \<noteq> ''result:'' @ url" "''result:'' @ url \<noteq> ''count:'' @ url"
  by simp_all

lemma get_page_miss:
  assumes c: "counts (redis_store w) (''count:'' @ url) n"
    and b: "int n < 9223372036854775807"
    and m: "cache_empty_or_absent (redis_store w) (''result:'' @ url)"
    and f: "fst (get_page_body net url w) = Inr page"
  shows "get_page net url w =
     (Inr page,
      \<lparr>redis_store = (redis_store w)
          \<lparr>db := (db (redis_store w))
             (''count:'' @ url \<mapsto>
                \<lparr>content = RString (str_of_int (int (Suc n))), expire_at = None\<rparr>,
              ''result:'' @ url \<mapsto>
                \<lparr>content = RString page, expire_at = Some (clock (redis_store w) + 10)\<rparr>),
            applied := applied (redis_store w)
                         @ [INCR (''count:'' @ url), SETEX (''result:'' @ url) 10 page]\<rparr>,
       requested = requested w @ [url]\<rparr>)"
proof -
  let ?s = "redis_store w"
  let ?s1 = "?s\<lparr>db := (db ?s)(''count:'' @ url \<mapsto>
                \<lparr>content = RString (str_of_int (int (Suc n))), expire_at = None\<rparr>),
              applied := applied ?s @ [INCR (''count:'' @ url)]\<rparr>"
  have i: "redis_incr (''count:'' @ url) ?s = (Inr (int n + 1), ?s1)"
    by (rule incr_counts [OF c b])
  have l: "live ?s1 (''result:'' @ url) = live ?s (''result:'' @ url)"
    by (rule live_same) simp_all
  have m1: "cache_empty_or_absent ?s1 (''result:'' @ url)"
    using m l by (simp only: cache_empty_or_absent_def)
  have g: "(case redis_get (''result:'' @ url) ?s1 of
              Inl e \<Rightarrow> None | Inr result \<Rightarrow> Some (if truthy result then result else None))
           = Some None"
    using m1 by (auto simp: redis_get_def cache_empty_or_absent_def truthy_def
        split: option.splits rvalue.splits)
  then obtain result where g1: "redis_get (''result:'' @ url) ?s1 = Inr result"
    and g2: "(if truthy result then result else None) = None"
    by (auto split: sum.splits)
  have fb: "get_page_body net url (w\<lparr>redis_store := ?s1\<rparr>) =
      (Inr page, w\<lparr>redis_store := ?s1, requested := requested w @ [url]\<rparr>)"
    using get_page_body_eq [of net url "w\<lparr>redis_store := ?s1\<rparr>"] f
    by (simp add: get_page_body_store)
  show ?thesis
    using i g1 g2 fb
    by (simp add: get_page_def data_cacher_def Let_def redis_setex_def encode_utf8_def)
qed

lemma get_page_hit:
  assumes c: "counts (redis_store w) (''count:'' @ url) n"
    and b: "int n < 9223372036854775807"
    and l: "live (redis_store w) (''result:'' @ url) = Some e"
    and e: "content e = RString cached"
    and ne: "cached \<noteq> []"
  shows "get_page net url w =
     (decode_utf8 cached,
      w\<lparr>redis_store := (redis_store w)
          \<lparr>db := (db (redis_store w))
             (''count:'' @ url \<mapsto>
                \<lparr>content = RString (str_of_int (int (Suc n))), expire_at = None\<rparr>),
            applied := applied (redis_store w) @ [INCR (''count:'' @ url)]\<rparr>\<rparr>)"
proof -
  let ?s = "redis_store w"
  let ?s1 = "?s\<lparr>db := (db ?s)(''count:'' @ url \<mapsto>
                \<lparr>content = RString (str_of_int (int (Suc n))), expire_at = None\<rparr>),
              applied := applied ?s @ [INCR (''count:'' @ url)]\<rparr>"
  have i: "redis_incr (''count:'' @ url) ?s = (Inr (int n + 1), ?s1)"
    by (rule incr_counts [OF c b])
  have "live ?s1 (''result:'' @ url) = live ?s (''result:'' @ url)"
    by (rule live_same) simp_all
  with l have l1: "live ?s1 (''result:'' @ url) = Some e" by simp
  have g: "redis_get (''result:'' @ url) ?s1 = Inr (Some cached)"
    using l1 e by (simp add: redis_get_def)
  show ?thesis
    using i g ne by (simp add: get_page_def data_cacher_def Let_def truthy_def)
qed

lemma error_text_valid:
  "utf8_valid (''Error fetching the URL: '' @ e) = utf8_valid e"
  by (simp add: utf8_valid_def utf8_head_def)

lemma get_page_counts:
  assumes c: "counts (redis_store w) (''count:'' @ url) n"
    and b: "int n < 9223372036854775807"
  shows "counts (redis_store (snd (get_page net url w))) (''count:'' @ url) (Suc n)"
proof -
  let ?s = "redis_store w"
  consider (absent) "cache_empty_or_absent ?s (''result:'' @ url)"
    | (hit) e cached where "live ?s (''result:'' @ url) = Some e" "content e = RString cached"
        "cached \<noteq> []"
    | (list) e xs where "live ?s (''result:'' @ url) = Some e" "content e = RList xs"
    by (cases "live ?s (''result:'' @ url)")
       (auto simp: cache_empty_or_absent_def, metis rvalue.exhaust)
  then show ?thesis
  proof cases
    case absent
    obtain page where "fst (get_page_body net url w) = Inr page"
      using get_page_body_Inr by blast
    from get_page_miss [OF c b absent this] show ?thesis
      by (simp add: counts_def)
  next
    case hit
    from get_page_hit [OF c b hit] show ?thesis
      by (simp add: counts_def)
  next
    case list
    let ?s1 = "?s\<lparr>db := (db ?s)(''count:'' @ url \<mapsto>
                \<lparr>content = RString (str_of_int (int (Suc n))), expire_at = None\<rparr>),
              applied := applied ?s @ [INCR (''count:'' @ url)]\<rparr>"
    have i: "redis_incr (''count:'' @ url) ?s = (Inr (int n + 1), ?s1)"
      by (rule incr_counts [OF c b])
    have "live ?s1 (''result:'' @ url) = live ?s (''result:'' @ url)"
      by (rule live_same) simp_all
    with list have "redis_get (''result:'' @ url) ?s1 = Inl (ResponseError WRONGTYPE)"
      by (simp add: redis_get_def)
    with i show ?thesis
      by (simp add: get_page_def data_cacher_def Let_def counts_def)
  qed
qed

section \<open>Two calls within the time to live\<close>

lemma cached_within_ttl:
  assumes c: "counts (redis_store w) (''count:'' @ url) n"
    and b: "int (Suc n) < 9223372036854775807"
    and m: "cache_empty_or_absent (redis_store w) (''result:'' @ url)"
    and f: "fst (get_page_body net url w) = Inr page"
    and ne: "page \<noteq> []"
    and v: "utf8_valid page"
    and d: "d < 10"
  shows "fst (get_page net url w) = Inr page"
    and "requested (snd (get_page net url w)) = requested w @ [url]"
    and "live (redis_store (snd (get_page net url w))) (''result:'' @ url) =
           Some \<lparr>content = RString page, expire_at = Some (clock (redis_store w) + 10)\<rparr>"
    and "fst (get_page net' url (wait d (snd (get_page net url w)))) = Inr page"
    and "requested (snd (get_page net' url (wait d (snd (get_page net url w))))) =
           requested w @ [url]"
    and "counts (redis_store (snd (get_page net' url (wait d (snd (get_page net url w))))))
           (''count:'' @ url) (n + 2)"
proof -
  from b have b0: "int n < 9223372036854775807" by simp
  note first = get_page_miss [OF c b0 m f]
  let ?wa = "snd (get_page net url w)"
  show r1: "fst (get_page net url w) = Inr page" by (simp add: first)
  show r2: "requested ?wa = requested w @ [url]" by (simp add: first)
  show "live (redis_store ?wa) (''result:'' @ url) =
           Some \<lparr>content = RString page, expire_at = Some (clock (redis_store w) + 10)\<rparr>"
    by (simp add: first live_def)
  let ?wd = "wait d ?wa"
  have ca: "counts (redis_store ?wa) (''count:'' @ url) (Suc n)"
    by (rule get_page_counts [OF c b0])
  have cd: "counts (redis_store ?wd) (''count:'' @ url) (Suc n)"
    using ca by (simp add: counts_def wait_def elapse_def)
  have ld: "live (redis_store ?wd) (''result:'' @ url) =
      Some \<lparr>content = RString page, expire_at = Some (clock (redis_store w) + 10)\<rparr>"
    using d by (simp add: first live_def wait_def elapse_def)
  note second = get_page_hit [OF cd b ld _ ne, where net = net']
  show "fst (get_page net' url ?wd) = Inr page"
    using second v by (simp add: decode_utf8_def)
  show "requested (snd (get_page net' url ?wd)) = requested w @ [url]"
    using second r2 by (simp add: wait_def)
  show "counts (redis_store (snd (get_page net' url ?wd))) (''count:'' @ url) (n + 2)"
    using get_page_counts [OF cd b, of net'] by simp
qed

text \<open>
  C2, amended. Every call of \<open>get_page(url)\<close> increments the counter \<open>count:url\<close>, on a hit,
  on a miss, and when the call raises after the increment. After a first call that
  finds no cached entry and fetches a page that is not empty, a second call made less
  than 10 time units later returns the same page without another request, and the
  counter stands two higher than before the first call (at 2 for a url not accessed
  before).
\<close>

theorem C2_count_and_cached_page:
  "(counts (redis_store w) (''count:'' @ url) n \<and> int n < 9223372036854775807 \<longrightarrow>
      counts (redis_store (snd (get_page net url w))) (''count:'' @ url) (Suc n))
   \<and> (counts (redis_store w) (''count:'' @ url) n \<and> int (Suc n) < 9223372036854775807
        \<and> live (redis_store w) (''result:'' @ url) = None
        \<and> fst (get_page_body net url w) = Inr page
        \<and> page \<noteq> [] \<and> utf8_valid page \<and> d < 10 \<longrightarrow>
      fst (get_page net url w) = Inr page
      \<and> requested (snd (get_page net url w)) = requested w @ [url]
      \<and> fst (get_page net' url (wait d (snd (get_page net url w)))) = Inr page
      \<and> requested (snd (get_page net' url (wait d (snd (get_page net url w))))) =
           requested (snd (get_page net url w))
      \<and> counts (redis_store (snd (get_page net' url (wait d (snd (get_page net url w))))))
           (''count:'' @ url) (n + 2))"
proof (rule conjI; rule impI)
  assume "counts (redis_store w) (''count:'' @ url) n \<and> int n < 9223372036854775807"
  then show "counts (redis_store (snd (get_page net url w))) (''count:'' @ url) (Suc n)"
    using get_page_counts by blast
next
  assume a: "counts (redis_store w) (''count:'' @ url) n \<and> int (Suc n) < 9223372036854775807
        \<and> live (redis_store w) (''result:'' @ url) = None
        \<and> fst (get_page_body net url w) = Inr page
        \<and> page \<noteq> [] \<and> utf8_valid page \<and> d < 10"
  then have c: "counts (redis_store w) (''count:'' @ url) n"
    and b: "int (Suc n) < 9223372036854775807"
    and f: "fst (get_page_body net url w) = Inr page"
    and ne: "page \<noteq> []" and v: "utf8_valid page" and d: "d < 10"
    by simp_all
  from a have m: "cache_empty_or_absent (redis_store w) (''result:'' @ url)"
    by (simp add: cache_empty_or_absent_def)
  note k = cached_within_ttl [OF c b m f ne v d]
  show "fst (get_page net url w) = Inr page
      \<and> requested (snd (get_page net url w)) = requested w @ [url]
      \<and> fst (get_page net' url (wait d (snd (get_page net url w)))) = Inr page
      \<and> requested (snd (get_page net' url (wait d (snd (get_page net url w))))) =
           requested (snd (get_page net url w))
      \<and> counts (redis_store (snd (get_page net' url (wait d (snd (get_page net url w))))))
           (''count:'' @ url) (n + 2)"
    using k(1) k(2) k(4) k(5) k(6) by simp
qed

lemmas web_defs =
  get_page_def data_cacher_def get_page_body_def raise_for_status_def truthy_def
  redis_incr_def redis_get_def redis_setex_def live_def wait_def elapse_def
  decode_utf8_def encode_utf8_def str_of_int_def digits_of_nat.simps digit_char_def
  string2ll_def canonical_digits_def nat_of_digits_def is_digit_def digit_val_def
  blank_world_def empty_store_def ok_response_def Let_def

text \<open>
  C2 as stated fails for an empty page: the empty byte string is cached, but \<open>if result:\<close>
  takes it for a miss, so a second call one time unit later requests the url again and
  returns what the network answers then.
\<close>

theorem C2_empty_page_is_fetched_again:
  "fst (get_page empty_site ''http://a.example'' blank_world) = Inr []
   \<and> requested (snd (get_page empty_site ''http://a.example'' blank_world)) = [''http://a.example'']
   \<and> fst (get_page empty_site ''http://a.example''
              (wait 1 (snd (get_page empty_site ''http://a.example'' blank_world)))) = Inr ''new''
   \<and> requested (snd (get_page empty_site ''http://a.example''
              (wait 1 (snd (get_page empty_site ''http://a.example'' blank_world))))) =
        [''http://a.example'', ''http://a.example'']"
  by (simp add: web_defs empty_site_def)

text \<open>The hypotheses of C2 hold for a first access in the blank world, 9 time units apart.\<close>

theorem C2_count_and_cached_page_witness:
  "counts (redis_store blank_world) (''count:'' @ ''http://a.example'') 0
   \<and> int (Suc 0) < 9223372036854775807
   \<and> live (redis_store blank_world) (''result:'' @ ''http://a.example'') = None
   \<and> fst (get_page_body changing_site ''http://a.example'' blank_world) = Inr ''<html>''
   \<and> ''<html>'' \<noteq> [] \<and> utf8_valid ''<html>'' \<and> (9 :: nat) < 10
   \<and> fst (get_page changing_site ''http://a.example'' blank_world) = Inr ''<html>''
   \<and> fst (get_page changing_site ''http://a.example''
             (wait 9 (snd (get_page changing_site ''http://a.example'' blank_world)))) = Inr ''<html>''
   \<and> requested (snd (get_page changing_site ''http://a.example''
             (wait 9 (snd (get_page changing_site ''http://a.example'' blank_world))))) =
        [''http://a.example'']
   \<and> counts (redis_store (snd (get_page changing_site ''http://a.example''
             (wait 9 (snd (get_page changing_site ''http://a.example'' blank_world))))))
        (''count:'' @ ''http://a.example'') 2"
proof -
  have c: "counts (redis_store blank_world) (''count:'' @ ''http://a.example'') 0"
    by (simp add: counts_def blank_world_def empty_store_def)
  have l: "live (redis_store blank_world) (''result:'' @ ''http://a.example'') = None"
    by (simp add: live_def blank_world_def empty_store_def)
  have f: "fst (get_page_body changing_site ''http://a.example'' blank_world) = Inr ''<html>''"
    by (simp add: get_page_body_def changing_site_def ok_response_def raise_for_status_def
        blank_world_def)
  have v: "utf8_valid ''<html>''" by (simp add: utf8_valid_def utf8_head_def)
  show ?thesis
    using c l f v
      C2_count_and_cached_page [where w = blank_world and url = "''http://a.example''"
        and n = 0 and net = changing_site and page = "''<html>''" and d = 9
        and net' = changing_site]
    by (simp add: blank_world_def numeral_2_eq_2)
qed

section \<open>Errors are cached like pages\<close>

lemma raise_for_status_iff:
  "(raise_for_status resp = None) = (status_code resp < 400 \<or> 600 \<le> status_code resp)"
  by (auto simp: raise_for_status_def)

text \<open>
  C3, amended. When the request fails with a \<open>RequestException\<close>, or the response has a
  status from 400 to 599 (the statuses for which \<open>raise_for_status\<close> raises), \<open>get_page\<close>
  returns the text \<open>Error fetching the URL: \<close> followed by the message, and does not
  raise. The text is stored under \<open>result:url\<close> with the expiry 10 time units ahead, as
  any page is, and a second call less than 10 time units later returns it from the cache
  without a request.
\<close>

theorem C3_error_is_cached:
  assumes c: "counts (redis_store w) (''count:'' @ url) n"
    and b: "int (Suc n) < 9223372036854775807"
    and m: "live (redis_store w) (''result:'' @ url) = None"
    and fail: "net (length (requested w)) url = Failed e
               \<or> (\<exists>resp. net (length (requested w)) url = Responded resp
                         \<and> 400 \<le> status_code resp \<and> status_code resp < 600
                         \<and> raise_for_status resp = Some e)"
    and v: "utf8_valid e"
    and d: "d < 10"
  shows "fst (get_page net url w) = Inr (''Error fetching the URL: '' @ e)
         \<and> requested (snd (get_page net url w)) = requested w @ [url]
         \<and> live (redis_store (snd (get_page net url w))) (''result:'' @ url) =
             Some \<lparr>content = RString (''Error fetching the URL: '' @ e),
                   expire_at = Some (clock (redis_store w) + 10)\<rparr>
         \<and> fst (get_page net' url (wait d (snd (get_page net url w)))) =
             Inr (''Error fetching the URL: '' @ e)
         \<and> requested (snd (get_page net' url (wait d (snd (get_page net url w))))) =
             requested (snd (get_page net url w))"
proof -
  let ?err = "''Error fetching the URL: '' @ e"
  have f: "fst (get_page_body net url w) = Inr ?err"
    using fail by (auto simp: get_page_body_def Let_def)
  have ne: "?err \<noteq> []" by simp
  have ve: "utf8_valid ?err" using v by (simp only: error_text_valid)
  have ma: "cache_empty_or_absent (redis_store w) (''result:'' @ url)"
    using m by (simp add: cache_empty_or_absent_def)
  note k = cached_within_ttl [OF c b ma f ne ve d]
  show ?thesis using k(1) k(2) k(3) k(4) k(5) by simp
qed

text \<open>
  C3 as stated fails for a status that is not a success and is not from 400 to 599:
  \<open>raise_for_status\<close> does not raise for 304, and \<open>get_page\<close> returns the body of the
  response, which is no error text, and caches it.
\<close>

theorem C3_status_304_returns_the_body:
  "raise_for_status \<lparr>status_code = 304, reason = ''Not Modified'',
                     resp_url = ''http://a.example'', resp_text = ''stale body''\<rparr> = None
   \<and> fst (get_page not_modified_site ''http://a.example'' blank_world) = Inr ''stale body''
   \<and> live (redis_store (snd (get_page not_modified_site ''http://a.example'' blank_world)))
        ''result:http://a.example'' =
       Some \<lparr>content = RString ''stale body'', expire_at = Some 10\<rparr>"
  by (simp add: web_defs not_modified_site_def)

text \<open>The hypotheses of C3 hold for a refused connection in the blank world.\<close>

theorem C3_error_is_cached_witness:
  "counts (redis_store blank_world) (''count:'' @ ''http://a.example'') 0
   \<and> int (Suc 0) < 9223372036854775807
   \<and> live (redis_store blank_world) (''result:'' @ ''http://a.example'') = None
   \<and> down_site (length (requested blank_world)) ''http://a.example'' = Failed ''connection refused''
   \<and> utf8_valid ''connection refused'' \<and> (9 :: nat) < 10
   \<and> fst (get_page down_site ''http://a.example'' blank_world) =
       Inr ''Error fetching the URL: connection refused''
   \<and> fst (get_page down_site ''http://a.example''
             (wait 9 (snd (get_page down_site ''http://a.example'' blank_world)))) =
       Inr ''Error fetching the URL: connection refused''
   \<and> requested (snd (get_page down_site ''http://a.example''
             (wait 9 (snd (get_page down_site ''http://a.example'' blank_world))))) =
       [''http://a.example'']"
proof -
  have c: "counts (redis_store blank_world) (''count:'' @ ''http://a.example'') 0"
    by (simp add: counts_def blank_world_def empty_store_def)
  have b: "int (Suc 0) < 9223372036854775807" by simp
  have l: "live (redis_store blank_world) (''result:'' @ ''http://a.example'') = None"
    by (simp add: live_def blank_world_def empty_store_def)
  have f: "down_site (length (requested blank_world)) ''http://a.example'' =
      Failed ''connection refused''"
    by (simp add: down_site_def blank_world_def)
  have fail: "down_site (length (requested blank_world)) ''http://a.example'' =
        Failed ''connection refused''
      \<or> (\<exists>resp. down_site (length (requested blank_world)) ''http://a.example'' = Responded resp
               \<and> 400 \<le> status_code resp \<and> status_code resp < 600
               \<and> raise_for_status resp = Some ''connection refused'')"
    using f by simp
  have v: "utf8_valid ''connection refused''" by (simp add: utf8_valid_def utf8_head_def)
  have d: "(9 :: nat) < 10" by simp
  show ?thesis
    using c l f v
      C3_error_is_cached [where net = down_site and net' = down_site and w = blank_world
        and url = "''http://a.example''" and n = 0 and e = "''connection refused''" and d = 9,
        OF c b l fail v d]
    by (simp add: blank_world_def)
qed

section \<open>An empty cached entry\<close>

text \<open>
  C10. When the entry under \<open>result:url\<close> is present and is the empty byte string,
  \<open>get_page\<close> takes it for absent: it calls the fetcher, overwrites the entry with what the
  fetcher returned (with a new expiry) and returns that, not the cached empty content.
\<close>

theorem C10_empty_entry_is_refetched:
  assumes c: "counts (redis_store w) (''count:'' @ url) n"
    and b: "int n < 9223372036854775807"
    and l: "live (redis_store w) (''result:'' @ url) = Some e"
    and e: "content e = RString []"
    and f: "fst (get_page_body net url w) = Inr page"
  shows "fst (get_page net url w) = Inr page
         \<and> requested (snd (get_page net url w)) = requested w @ [url]
         \<and> live (redis_store (snd (get_page net url w))) (''result:'' @ url) =
             Some \<lparr>content = RString page, expire_at = Some (clock (redis_store w) + 10)\<rparr>"
proof -
  have m: "cache_empty_or_absent (redis_store w) (''result:'' @ url)"
    using l e by (simp add: cache_empty_or_absent_def)
  show ?thesis
    by (simp add: get_page_miss [OF c b m f] live_def)
qed

text \<open>The hypotheses of C10 hold in that world.\<close>

theorem C10_empty_entry_is_refetched_witness:
  "counts (redis_store after_empty_page) (''count:'' @ ''http://a.example'') 1
   \<and> int 1 < 9223372036854775807
   \<and> live (redis_store after_empty_page) (''result:'' @ ''http://a.example'') =
       Some \<lparr>content = RString [], expire_at = Some 10\<rparr>
   \<and> content \<lparr>content = RString [], expire_at = Some 10\<rparr> = RString []
   \<and> fst (get_page_body empty_site ''http://a.example'' after_empty_page) = Inr ''new''
   \<and> fst (get_page empty_site ''http://a.example'' after_empty_page) = Inr ''new''
   \<and> requested (snd (get_page empty_site ''http://a.example'' after_empty_page)) =
       [''http://a.example'', ''http://a.example'']
   \<and> live (redis_store (snd (get_page empty_site ''http://a.example'' after_empty_page)))
        (''result:'' @ ''http://a.example'') =
       Some \<lparr>content = RString ''new'', expire_at = Some 11\<rparr>"
proof -
  have c: "counts (redis_store after_empty_page) (''count:'' @ ''http://a.example'') 1"
    by (simp add: after_empty_page_def counts_def web_defs empty_site_def)
  have b: "int 1 < 9223372036854775807" by simp
  have l: "live (redis_store after_empty_page) (''result:'' @ ''http://a.example'') =
       Some \<lparr>content = RString [], expire_at = Some 10\<rparr>"
    by (simp add: after_empty_page_def web_defs empty_site_def)
  have e: "content \<lparr>content = RString [], expire_at = Some 10\<rparr> = RString []" by simp
  have f: "fst (get_page_body empty_site ''http://a.example'' after_empty_page) = Inr ''new''"
    by (simp add: after_empty_page_def web_defs empty_site_def)
  have r: "requested after_empty_page = [''http://a.example'']"
    by (simp add: after_empty_page_def web_defs empty_site_def)
  have k: "clock (redis_store after_empty_page) = 1"
    by (simp add: after_empty_page_def web_defs empty_site_def)
  show ?thesis
    using c l f r k
      C10_empty_entry_is_refetched [where net = empty_site and w = after_empty_page
        and url = "''http://a.example''" and n = 1 and page = "''new''", OF c b l e f]
    by simp
qed

end
